theory Spec2Isabelle
  imports Complex_Main "HOL-Library.List_Lexorder"
begin

section \<open>Residence-status dashboard: the client logic of static/js/app.js\<close>

text \<open>
  The development embeds the non-presentational part of \<^verbatim>\<open>static/js/app.js\<close>:
  the named filters, the search, the column sort, the validation of the edit form, the
  unsaved-change tracker and the extraction of a download name from a
  Content-Disposition header. Every assignment to a module-level variable, every
  early return and every exception is kept. A write to the page changes nothing of
  the module state; what is kept of it is whether the element written to exists,
  where a missing element makes the statement throw before a later assignment.
\<close>

subsection \<open>Strings\<close>

text \<open>
  A JavaScript string is a sequence of UTF-16 code units, here natural numbers below
  65536. ASCII literals of the source are written through \<open>js\<close>; the Japanese literals
  are written as their code units.
\<close>

type_synonym jsstring = "nat list"

definition js :: "string \<Rightarrow> jsstring" where
  "js s = map of_char s"

text \<open>\<^verbatim>\<open>String.prototype.includes\<close>: the argument occurs as a contiguous run.\<close>

fun starts_with :: "jsstring \<Rightarrow> jsstring \<Rightarrow> bool" where
  "starts_with s [] = True"
| "starts_with [] (p # ps) = False"
| "starts_with (c # cs) (p # ps) = (c = p \<and> starts_with cs ps)"

fun js_includes :: "jsstring \<Rightarrow> jsstring \<Rightarrow> bool" where
  "js_includes [] p = (p = [])"
| "js_includes (c # cs) p = (starts_with (c # cs) p \<or> js_includes cs p)"

subsection \<open>Values and exceptions\<close>

text \<open>
  The values a field of a row can hold, as far as this development follows them:
  \<^verbatim>\<open>undefined\<close> (the key is missing), \<^verbatim>\<open>null\<close>, an integer, and a string;
  \<^verbatim>\<open>Infinity\<close> is what the sort puts in the place of \<^verbatim>\<open>null\<close>. The two
  exceptions are the \<^verbatim>\<open>TypeError\<close> of a method call on a value that has no such
  method and the \<^verbatim>\<open>URIError\<close> of \<^verbatim>\<open>decodeURIComponent\<close>.
\<close>

datatype jsval = Undefined | Null | Num int | Infinity | Str jsstring

datatype js_exception = TypeError | URIError

subsection \<open>Records of the dataset\<close>

text \<open>
  A row is the JSON object the backend sends for one person. The field names are
  romanised: \<open>tantosha_code\<close> is the person code, \<open>shimei1\<close> and \<open>shimei2\<close> the
  two name lines, \<open>zairyu_shikaku\<close> the status category, \<open>kokuseki\<close> the
  nationality; these five are the fields the search reads, and they hold any value
  (the search throws on one that is not a string). \<open>manryo_made_nissu\<close> is the
  number of days until the expiry date (read by the \<^verbatim>\<open>expired\<close> filter) and
  \<open>manryo_nissu_value\<close> the numeric day count (the key of the table column of the day
  count with the suffix for its value; U+6E80 U+4E86 U+65E5 U+6570 \<^verbatim>\<open>_\<close> U+5024), read
  by the \<^verbatim>\<open>skill1_limit\<close> filter and special-cased by the sort; both are a number
  or \<^verbatim>\<open>null\<close> (\<open>None\<close>), as the code tests them. \<open>ki_manryo_nissu\<close> is the number
  of days already elapsed (the key of the form field, U+65E2 U+6E80 U+4E86 U+65E5
  U+6570), which the edit form sends to the backend; no function of the program reads
  it from a row. \<open>kigen_level\<close> is the level label, \<open>kigenN_state\<close> the state of
  deadline slot N (an object with \<^verbatim>\<open>status\<close> and \<^verbatim>\<open>days\<close>, or \<^verbatim>\<open>null\<close>),
  \<open>other\<close> the remaining keys of the object with their values.
\<close>

record deadline_state =
  status :: jsstring
  days :: int

record row =
  index :: int
  tantosha_code :: jsval
  shimei1 :: jsval
  shimei2 :: jsval
  zairyu_shikaku :: jsval
  kokuseki :: jsval
  manryo_made_nissu :: "int option"
  manryo_nissu_value :: "int option"
  ki_manryo_nissu :: "int option"
  kigen_level :: jsstring
  kigen1_state :: "deadline_state option"
  kigen2_state :: "deadline_state option"
  kigen3_state :: "deadline_state option"
  other :: "(jsstring \<times> jsval) list"

subsection \<open>Columns and the module state\<close>

text \<open>
  \<^verbatim>\<open>sortTable(column)\<close> reads \<^verbatim>\<open>a[column]\<close> for any key. A column is one of the
  five searched fields or the level label (\<open>StrCol\<close>), one of the number-or-null
  fields (\<open>NumCol\<close>), or any other key of the object (\<open>OtherCol\<close>), whose value is
  \<^verbatim>\<open>undefined\<close> in a row that does not have the key.
\<close>

datatype strkey = TantoshaCode | Shimei1 | Shimei2 | ZairyuShikaku | Kokuseki | KigenLevel

datatype numkey = Index | ManryoMadeNissu | ManryoNissuValue

datatype column = StrCol strkey | NumCol numkey | OtherCol jsstring

text \<open>
  Arrays are objects: \<^verbatim>\<open>filteredData = allData\<close> copies a reference, and
  \<^verbatim>\<open>Array.prototype.sort\<close> sorts the array it is called on in place. The state
  therefore holds a store of arrays and the two variables hold addresses.
  \<^verbatim>\<open>Array.prototype.filter\<close> returns a new array: its address is one that neither
  variable holds.
\<close>

type_synonym addr = nat

record state =
  store :: "addr \<Rightarrow> row list"
  allData :: addr
  filteredData :: addr
  currentFilter :: jsstring
  sortColumn :: "column option"
  sortAscending :: bool
  hasUnsavedChanges :: bool
  lastChangeTimestamp :: "int option"
  lastExportedAt :: "int option"

definition dataset :: "state \<Rightarrow> row list" where
  "dataset s = store s (allData s)"

definition visible :: "state \<Rightarrow> row list" where
  "visible s = store s (filteredData s)"

definition new_array :: "state \<Rightarrow> addr" where
  "new_array s = Suc (max (allData s) (filteredData s))"

text \<open>Lines 4 to 10: the initial values of the module-level variables.\<close>

definition initial_state :: state where
  "initial_state =
     \<lparr> store = (\<lambda>a. []), allData = 0, filteredData = 1, currentFilter = js ''all'',
       sortColumn = None, sortAscending = True, hasUnsavedChanges = False,
       lastChangeTimestamp = None, lastExportedAt = None \<rparr>"

text \<open>
  \<^verbatim>\<open>loadData\<close> after a successful response: \<^verbatim>\<open>allData = result.data;
  filteredData = allData\<close>. The parsed array is a new one and both variables refer
  to it.
\<close>

definition loadData :: "row list \<Rightarrow> state \<Rightarrow> state" where
  "loadData rows s =
     (let a = new_array s
      in s\<lparr>store := (store s)(a := rows), allData := a, filteredData := a\<rparr>)"

subsection \<open>Named filters (filterData, lines 183 to 240)\<close>

definition slot_overdue :: "deadline_state option \<Rightarrow> bool" where
  "slot_overdue st = (case st of None \<Rightarrow> False | Some d \<Rightarrow> status d = js ''overdue'')"

definition deadline_passed_row :: "row \<Rightarrow> bool" where
  "deadline_passed_row r =
     (slot_overdue (kigen1_state r) \<or> slot_overdue (kigen2_state r) \<or>
      slot_overdue (kigen3_state r))"

definition expired_row :: "row \<Rightarrow> bool" where
  "expired_row r = (case manryo_made_nissu r of None \<Rightarrow> False | Some d \<Rightarrow> d < 0)"

definition level_row :: "jsstring \<Rightarrow> row \<Rightarrow> bool" where
  "level_row l r = (kigen_level r = l)"

definition skill1_limit_row :: "row \<Rightarrow> bool" where
  "skill1_limit_row r =
     (case manryo_nissu_value r of None \<Rightarrow> False | Some d \<Rightarrow> d + 184 > 1826)"

definition assign_filtered :: "(row \<Rightarrow> bool) \<Rightarrow> state \<Rightarrow> state" where
  "assign_filtered p s =
     (let a = new_array s
      in s\<lparr>store := (store s)(a := filter p (store s (allData s))), filteredData := a\<rparr>)"

definition filterData :: "jsstring \<Rightarrow> state \<Rightarrow> state" where
  "filterData filterType s0 =
     (let s = s0\<lparr>currentFilter := filterType\<rparr>
      in if filterType = js ''all'' then s\<lparr>filteredData := allData s\<rparr>
         else if filterType = js ''deadline_passed'' then assign_filtered deadline_passed_row s
         else if filterType = js ''expired'' then assign_filtered expired_row s
         else if filterType = js ''30days'' then assign_filtered (level_row (js ''level1'')) s
         else if filterType = js ''60days'' then assign_filtered (level_row (js ''level2'')) s
         else if filterType = js ''90days'' then assign_filtered (level_row (js ''level3'')) s
         else if filterType = js ''skill1_limit'' then assign_filtered skill1_limit_row s
         else s)"

subsection \<open>Search (searchData, lines 243 to 265)\<close>

text \<open>
  \<^verbatim>\<open>String.prototype.trim\<close> removes white space and line terminators from both
  ends; these are the code units that count as such.
\<close>

definition is_white_space :: "nat \<Rightarrow> bool" where
  "is_white_space c =
     (c \<in> set [0x9, 0xA, 0xB, 0xC, 0xD, 0x20, 0xA0, 0x1680, 0x2028, 0x2029, 0x202F,
               0x205F, 0x3000, 0xFEFF] \<or> (0x2000 \<le> c \<and> c \<le> 0x200A))"

definition trim_start :: "jsstring \<Rightarrow> jsstring" where
  "trim_start s = dropWhile is_white_space s"

definition trim :: "jsstring \<Rightarrow> jsstring" where
  "trim s = rev (dropWhile is_white_space (rev (trim_start s)))"

text \<open>
  \<^verbatim>\<open>String.prototype.toLowerCase\<close> applies the Unicode case mapping, which is part
  of the language and not of this program: the search takes it as the parameter
  \<open>toLowerCase\<close>. \<open>ascii_toLowerCase\<close> is that mapping on strings of ASCII code units
  and is used for concrete inputs only.
\<close>

definition ascii_toLowerCase :: "jsstring \<Rightarrow> jsstring" where
  "ascii_toLowerCase s = map (\<lambda>c. if 0x41 \<le> c \<and> c \<le> 0x5A then c + 0x20 else c) s"

text \<open>
  One operand of the callback of lines 255 to 259,
  \<^verbatim>\<open>row[key].toLowerCase().includes(searchText)\<close>: on a value that is not a string
  (\<^verbatim>\<open>null\<close>, \<^verbatim>\<open>undefined\<close>, a number) the call of \<^verbatim>\<open>toLowerCase\<close> throws
  \<^verbatim>\<open>TypeError\<close>.
\<close>

definition lowered_includes ::
  "(jsstring \<Rightarrow> jsstring) \<Rightarrow> jsstring \<Rightarrow> jsval \<Rightarrow> js_exception + bool" where
  "lowered_includes toLowerCase searchText v =
     (case v of
        Str x \<Rightarrow> Inr (js_includes (toLowerCase x) searchText)
      | _ \<Rightarrow> Inl TypeError)"

text \<open>
  \<^verbatim>\<open>a || b\<close> on boolean operands that may throw: \<open>b\<close> is evaluated only when \<open>a\<close>
  is false.
\<close>

definition or_else :: "js_exception + bool \<Rightarrow> js_exception + bool \<Rightarrow> js_exception + bool" where
  "or_else a b = (case a of Inl e \<Rightarrow> Inl e | Inr t \<Rightarrow> if t then Inr True else b)"

definition search_match ::
  "(jsstring \<Rightarrow> jsstring) \<Rightarrow> jsstring \<Rightarrow> row \<Rightarrow> js_exception + bool" where
  "search_match toLowerCase searchText r =
     or_else (lowered_includes toLowerCase searchText (tantosha_code r))
       (or_else (lowered_includes toLowerCase searchText (shimei1 r))
          (or_else (lowered_includes toLowerCase searchText (shimei2 r))
             (or_else (lowered_includes toLowerCase searchText (zairyu_shikaku r))
                (lowered_includes toLowerCase searchText (kokuseki r)))))"

text \<open>
  \<^verbatim>\<open>Array.prototype.filter\<close> with a callback that may throw: the elements are
  visited in order and the first exception ends the call.
\<close>

fun array_filter :: "('a \<Rightarrow> js_exception + bool) \<Rightarrow> 'a list \<Rightarrow> js_exception + 'a list" where
  "array_filter p [] = Inr []"
| "array_filter p (x # xs) =
     (case p x of
        Inl e \<Rightarrow> Inl e
      | Inr keep \<Rightarrow>
          (case array_filter p xs of
             Inl e \<Rightarrow> Inl e
           | Inr ys \<Rightarrow> Inr (if keep then x # ys else ys)))"

text \<open>
  The second argument is the value of the search box. The result is the exception of
  the callback, if it throws, and the module state: when the callback throws, the
  assignment of line 254 does not take place and the state is as before. The writes
  to the page follow the assignment and change nothing of the state.
\<close>

definition searchData ::
  "(jsstring \<Rightarrow> jsstring) \<Rightarrow> jsstring \<Rightarrow> state \<Rightarrow> js_exception option \<times> state" where
  "searchData toLowerCase input s =
     (let searchText = trim (toLowerCase input)
      in if searchText = [] then (None, s\<lparr>filteredData := allData s\<rparr>)
         else
           (case array_filter (search_match toLowerCase searchText) (store s (allData s)) of
              Inl e \<Rightarrow> (Some e, s)
            | Inr found \<Rightarrow>
                (None, (let a = new_array s
                        in s\<lparr>store := (store s)(a := found), filteredData := a\<rparr>))))"

subsection \<open>Sort (sortTable, lines 268 to 293)\<close>

text \<open>
  The relational operators on two strings compare the code units lexicographically,
  which is \<open><\<close> on lists. On any other pair both operands are converted with
  \<^verbatim>\<open>ToNumber\<close> (\<^verbatim>\<open>undefined\<close> to \<^verbatim>\<open>NaN\<close>, \<^verbatim>\<open>null\<close> to 0) and compared as
  numbers; a comparison with \<^verbatim>\<open>NaN\<close> is false. The conversion of a string to a
  number belongs to the language: it is the parameter \<open>StringToNumber\<close>. Numbers are
  rationals with the two infinities and \<^verbatim>\<open>NaN\<close>.
\<close>

datatype jsnumber = NaN | NegInf | Fin rat | PosInf

fun number_less :: "jsnumber \<Rightarrow> jsnumber \<Rightarrow> bool" where
  "number_less (Fin x) (Fin y) = (x < y)"
| "number_less (Fin x) PosInf = True"
| "number_less NegInf (Fin y) = True"
| "number_less NegInf PosInf = True"
| "number_less x y = False"

fun ToNumber :: "(jsstring \<Rightarrow> jsnumber) \<Rightarrow> jsval \<Rightarrow> jsnumber" where
  "ToNumber StringToNumber Undefined = NaN"
| "ToNumber StringToNumber Null = Fin 0"
| "ToNumber StringToNumber (Num n) = Fin (of_int n)"
| "ToNumber StringToNumber Infinity = PosInf"
| "ToNumber StringToNumber (Str x) = StringToNumber x"

fun js_less :: "(jsstring \<Rightarrow> jsnumber) \<Rightarrow> jsval \<Rightarrow> jsval \<Rightarrow> bool" where
  "js_less StringToNumber (Str x) (Str y) = (x < y)"
| "js_less StringToNumber a b =
     number_less (ToNumber StringToNumber a) (ToNumber StringToNumber b)"

definition of_nullable :: "int option \<Rightarrow> jsval" where
  "of_nullable v = (case v of None \<Rightarrow> Null | Some n \<Rightarrow> Num n)"

text \<open>\<^verbatim>\<open>a[column]\<close>.\<close>

fun get :: "column \<Rightarrow> row \<Rightarrow> jsval" where
  "get (StrCol TantoshaCode) r = tantosha_code r"
| "get (StrCol Shimei1) r = shimei1 r"
| "get (StrCol Shimei2) r = shimei2 r"
| "get (StrCol ZairyuShikaku) r = zairyu_shikaku r"
| "get (StrCol Kokuseki) r = kokuseki r"
| "get (StrCol KigenLevel) r = Str (kigen_level r)"
| "get (NumCol Index) r = Num (index r)"
| "get (NumCol ManryoMadeNissu) r = of_nullable (manryo_made_nissu r)"
| "get (NumCol ManryoNissuValue) r = of_nullable (manryo_nissu_value r)"
| "get (OtherCol k) r = (case map_of (other r) k of None \<Rightarrow> Undefined | Some v \<Rightarrow> v)"

text \<open>
  The comparison function of lines 276 to 289. Only the column of the numeric day
  count replaces \<^verbatim>\<open>null\<close> by \<^verbatim>\<open>Infinity\<close>.
\<close>

definition null_to_infinity :: "jsval \<Rightarrow> jsval" where
  "null_to_infinity v = (if v = Null then Infinity else v)"

definition compare_result :: "bool \<Rightarrow> bool \<Rightarrow> bool \<Rightarrow> int" where
  "compare_result ascending lt gt =
     (if lt then (if ascending then - 1 else 1)
      else if gt then (if ascending then 1 else - 1)
      else 0)"

definition comparefn :: "(jsstring \<Rightarrow> jsnumber) \<Rightarrow> column \<Rightarrow> bool \<Rightarrow> row \<Rightarrow> row \<Rightarrow> int" where
  "comparefn StringToNumber column ascending a b =
     (let aVal = (if column = NumCol ManryoNissuValue then null_to_infinity (get column a)
                  else get column a);
          bVal = (if column = NumCol ManryoNissuValue then null_to_infinity (get column b)
                  else get column b)
      in compare_result ascending (js_less StringToNumber aVal bVal)
           (js_less StringToNumber bVal aVal))"

text \<open>
  \<^verbatim>\<open>Array.prototype.sort\<close> with a comparison function is stable, and for a
  consistent comparison function its result is the one stable sorted arrangement; for
  an inconsistent one the language leaves the order to the implementation.
  \<open>comparefn\<close> is consistent on a column whose values are all strings or all numbers
  and \<^verbatim>\<open>null\<close>. The model computes the stable arrangement by insertion: an element
  moves behind those that compare strictly smaller and stays ahead of its equals that
  followed it. The properties of the sort are stated for columns on which the
  comparison is consistent.
\<close>

fun insert_sorted :: "('a \<Rightarrow> 'a \<Rightarrow> int) \<Rightarrow> 'a \<Rightarrow> 'a list \<Rightarrow> 'a list" where
  "insert_sorted cmp x [] = [x]"
| "insert_sorted cmp x (y # ys) =
     (if cmp x y \<le> 0 then x # y # ys else y # insert_sorted cmp x ys)"

fun array_sort :: "('a \<Rightarrow> 'a \<Rightarrow> int) \<Rightarrow> 'a list \<Rightarrow> 'a list" where
  "array_sort cmp [] = []"
| "array_sort cmp (x # xs) = insert_sorted cmp x (array_sort cmp xs)"

text \<open>The sort is in place: the array \<^verbatim>\<open>filteredData\<close> refers to is overwritten.\<close>

definition sortTable :: "(jsstring \<Rightarrow> jsnumber) \<Rightarrow> column \<Rightarrow> state \<Rightarrow> state" where
  "sortTable StringToNumber column s0 =
     (let s = (if sortColumn s0 = Some column
               then s0\<lparr>sortAscending := \<not> sortAscending s0\<rparr>
               else s0\<lparr>sortColumn := Some column, sortAscending := True\<rparr>);
          a = filteredData s
      in s\<lparr>store := (store s)(a := array_sort (comparefn StringToNumber column (sortAscending s))
                                     (store s a))\<rparr>)"

subsection \<open>Vocabulary of the sort properties\<close>

text \<open>
  \<open>operand\<close> is the value a row contributes to a comparison in a column and
  \<open>column_key\<close> what the comparison sees of it: the string itself, or the number the
  value converts to. A column is well typed on a sequence of rows when the operands
  are all strings or all numbers (\<^verbatim>\<open>null\<close> and \<^verbatim>\<open>Infinity\<close> included);
  \<open>distinct_in_column\<close> says that no two rows of the sequence have the same key.
  \<open>compared_number\<close> is the number a row contributes in a number-or-null column.
  \<open>strict_linear\<close> and \<open>key_cmp\<close> describe a comparison of one key per row in a
  strict linear order.
\<close>

definition operand :: "column \<Rightarrow> row \<Rightarrow> jsval" where
  "operand column r =
     (if column = NumCol ManryoNissuValue then null_to_infinity (get column r) else get column r)"

definition column_key :: "(jsstring \<Rightarrow> jsnumber) \<Rightarrow> column \<Rightarrow> row \<Rightarrow> jsnumber + jsstring" where
  "column_key StringToNumber column r =
     (case operand column r of
        Str x \<Rightarrow> Inr x
      | v \<Rightarrow> Inl (ToNumber StringToNumber v))"

definition is_string :: "jsval \<Rightarrow> bool" where
  "is_string v = (case v of Str x \<Rightarrow> True | _ \<Rightarrow> False)"

definition is_number :: "jsval \<Rightarrow> bool" where
  "is_number v = (case v of Null \<Rightarrow> True | Num n \<Rightarrow> True | Infinity \<Rightarrow> True | _ \<Rightarrow> False)"

definition well_typed_column :: "column \<Rightarrow> row list \<Rightarrow> bool" where
  "well_typed_column column xs =
     (list_all (\<lambda>r. is_string (operand column r)) xs \<or>
      list_all (\<lambda>r. is_number (operand column r)) xs)"

definition distinct_in_column :: "(jsstring \<Rightarrow> jsnumber) \<Rightarrow> column \<Rightarrow> row list \<Rightarrow> bool" where
  "distinct_in_column StringToNumber column xs = distinct (map (column_key StringToNumber column) xs)"

definition compared_number :: "(jsstring \<Rightarrow> jsnumber) \<Rightarrow> numkey \<Rightarrow> row \<Rightarrow> jsnumber" where
  "compared_number StringToNumber k r = ToNumber StringToNumber (operand (NumCol k) r)"

definition strict_linear :: "('k \<Rightarrow> 'k \<Rightarrow> bool) \<Rightarrow> bool" where
  "strict_linear lt =
     ((\<forall>x. \<not> lt x x) \<and> (\<forall>x y z. lt x y \<longrightarrow> lt y z \<longrightarrow> lt x z) \<and>
      (\<forall>x y. lt x y \<or> x = y \<or> lt y x))"

definition key_cmp :: "('k \<Rightarrow> 'k \<Rightarrow> bool) \<Rightarrow> ('a \<Rightarrow> 'k) \<Rightarrow> bool \<Rightarrow> 'a \<Rightarrow> 'a \<Rightarrow> int" where
  "key_cmp lt key ascending a b = compare_result ascending (lt (key a) (key b)) (lt (key b) (key a))"

text \<open>
  The order of the numbers with \<^verbatim>\<open>NaN\<close> put below all of them: it is linear and
  agrees with \<open>number_less\<close> wherever no \<^verbatim>\<open>NaN\<close> takes part.
\<close>

fun total_less :: "jsnumber \<Rightarrow> jsnumber \<Rightarrow> bool" where
  "total_less x NaN = False"
| "total_less NaN y = True"
| "total_less x y = number_less x y"

text \<open>
  Concrete inputs: a row from an id, the first name line and the two day counts, and
  a stand-in for the conversion of strings to numbers. On the concrete inputs below
  no string is ever compared with a number, so the conversion is never consulted.
\<close>

definition example_row :: "int \<Rightarrow> jsstring \<Rightarrow> int option \<Rightarrow> int option \<Rightarrow> row" where
  "example_row i name until v =
     \<lparr> index = i, tantosha_code = Str (js ''c''), shimei1 = Str name, shimei2 = Str [],
       zairyu_shikaku = Str [], kokuseki = Str [], manryo_made_nissu = until,
       manryo_nissu_value = v, ki_manryo_nissu = None, kigen_level = js ''none'',
       kigen1_state = None, kigen2_state = None, kigen3_state = None, other = [] \<rparr>"

definition no_numeric_strings :: "jsstring \<Rightarrow> jsnumber" where
  "no_numeric_strings x = NaN"

text \<open>The seven filter names the page offers, and the rows each one shows.\<close>

definition named_filters :: "jsstring list" where
  "named_filters =
     [js ''all'', js ''deadline_passed'', js ''expired'', js ''30days'', js ''60days'',
      js ''90days'', js ''skill1_limit'']"

definition named_predicate :: "jsstring \<Rightarrow> row \<Rightarrow> bool" where
  "named_predicate f r =
     (if f = js ''all'' then True
      else if f = js ''deadline_passed'' then deadline_passed_row r
      else if f = js ''expired'' then expired_row r
      else if f = js ''30days'' then kigen_level r = js ''level1''
      else if f = js ''60days'' then kigen_level r = js ''level2''
      else if f = js ''90days'' then kigen_level r = js ''level3''
      else skill1_limit_row r)"

subsection \<open>The edit form (handleFormSubmit, lines 467 to 544)\<close>

text \<open>
  \<^verbatim>\<open>parseInt(string)\<close> without a radix: leading white space is dropped, one sign is
  read, a prefix \<^verbatim>\<open>0x\<close> or \<^verbatim>\<open>0X\<close> selects radix 16, and the longest run of digits
  of the radix is the value; whatever follows the run is ignored. \<open>None\<close> is
  \<^verbatim>\<open>NaN\<close> (no digit at all). The value is exact here; the code only asks whether it
  is \<^verbatim>\<open>NaN\<close> or negative.
\<close>

definition digit_value :: "nat \<Rightarrow> nat \<Rightarrow> nat option" where
  "digit_value R c =
     (let v = (if 0x30 \<le> c \<and> c \<le> 0x39 then Some (c - 0x30)
               else if 0x61 \<le> c \<and> c \<le> 0x7A then Some (c - 0x61 + 10)
               else if 0x41 \<le> c \<and> c \<le> 0x5A then Some (c - 0x41 + 10)
               else None)
      in case v of None \<Rightarrow> None | Some d \<Rightarrow> if d < R then Some d else None)"

definition parseInt :: "jsstring \<Rightarrow> int option" where
  "parseInt string =
     (let S = trim_start string;
          sign = (if S \<noteq> [] \<and> hd S = 0x2D then - 1 else 1);
          S1 = (if S \<noteq> [] \<and> (hd S = 0x2B \<or> hd S = 0x2D) then tl S else S);
          hex = (2 \<le> length S1 \<and> (take 2 S1 = js ''0x'' \<or> take 2 S1 = js ''0X''));
          R = (if hex then 16 else 10);
          S2 = (if hex then drop 2 S1 else S1);
          Z = takeWhile (\<lambda>c. digit_value R c \<noteq> None) S2
      in if Z = [] then None
         else Some (sign * int (foldl (\<lambda>a c. a * R + the (digit_value R c)) 0 Z)))"

text \<open>
  The values of the fourteen inputs that make up the request body, in the order of
  lines 490 to 503; \<open>in_zairyu_shikaku\<close> is the status category and
  \<open>in_ki_manryo_days\<close> the days already elapsed.
\<close>

record form_fields =
  in_tantosha_code :: jsstring
  in_shimei1 :: jsstring
  in_shimei2 :: jsstring
  in_zairyu_shikaku :: jsstring
  in_kokuseki :: jsstring
  in_card_number :: jsstring
  in_birth_date :: jsstring
  in_kisei :: jsstring
  in_kyoka_date :: jsstring
  in_manryo_date :: jsstring
  in_ki_manryo_days :: jsstring
  in_kigen1 :: jsstring
  in_kigen2 :: jsstring
  in_kigen3 :: jsstring

text \<open>
  The two alerts of the validation (each followed by a focus on the field and a
  return), and the two requests: \<^verbatim>\<open>POST /api/data/add\<close> and
  \<^verbatim>\<open>PUT /api/data/update/index\<close>, both with the field values as the body.
\<close>

datatype validation_failure = DaysRequired | DaysNotNonNegative

datatype request = AddRequest form_fields | UpdateRequest jsstring form_fields

text \<open>
  The marker of line 475: the status category includes the four characters of
  "specific skill" (U+7279 U+5B9A U+6280 U+80FD) and "1" followed by U+53F7, the digit
  being the ASCII one or the full-width one (U+FF11).
\<close>

definition tier1_marker :: "jsstring \<Rightarrow> bool" where
  "tier1_marker zairyuShikaku =
     (js_includes zairyuShikaku [0x7279, 0x5B9A, 0x6280, 0x80FD] \<and>
      (js_includes zairyuShikaku [0x31, 0x53F7] \<or> js_includes zairyuShikaku [0xFF11, 0x53F7]))"

text \<open>
  \<open>handleFormSubmit\<close> up to the \<^verbatim>\<open>fetch\<close>: \<open>Inl\<close> is a rejected submission (no
  request is made), \<open>Inr\<close> the request that is sent. The first argument is the value
  of the hidden index field.
\<close>

definition handleFormSubmit :: "jsstring \<Rightarrow> form_fields \<Rightarrow> validation_failure + request" where
  "handleFormSubmit editIndex inputs =
     (let zairyuShikaku = in_zairyu_shikaku inputs;
          kiManryoDays = in_ki_manryo_days inputs
      in if tier1_marker zairyuShikaku \<and> kiManryoDays = [] then Inl DaysRequired
         else if tier1_marker zairyuShikaku \<and>
                 (case parseInt kiManryoDays of None \<Rightarrow> True | Some kiManryoNum \<Rightarrow> kiManryoNum < 0)
         then Inl DaysNotNonNegative
         else if editIndex = [] then Inr (AddRequest inputs)
         else Inr (UpdateRequest editIndex inputs))"

text \<open>A form for concrete inputs: a status category and the days already elapsed.\<close>

definition example_form :: "jsstring \<Rightarrow> jsstring \<Rightarrow> form_fields" where
  "example_form category elapsed =
     \<lparr> in_tantosha_code = js ''c'', in_shimei1 = js ''a'', in_shimei2 = [],
       in_zairyu_shikaku = category, in_kokuseki = [], in_card_number = [],
       in_birth_date = [], in_kisei = [], in_kyoka_date = [], in_manryo_date = [],
       in_ki_manryo_days = elapsed, in_kigen1 = js ''90'', in_kigen2 = js ''60'',
       in_kigen3 = js ''30'' \<rparr>"

subsection \<open>The unsaved-change tracker (lines 598 to 636)\<close>

text \<open>
  \<^verbatim>\<open>timestamp.replace(' ', 'T')\<close> replaces the first space. The parsing done by
  \<^verbatim>\<open>new Date\<close> belongs to the language: \<open>date_parse\<close> stands for it and gives the
  time value in milliseconds, or \<open>None\<close> for an invalid date. The timestamp is what
  the backend sent: a falsy value gives \<^verbatim>\<open>null\<close>, and a truthy value that is not a
  string has no method \<^verbatim>\<open>replace\<close>, so that the call throws \<^verbatim>\<open>TypeError\<close>.
\<close>

fun replace_first :: "nat \<Rightarrow> nat \<Rightarrow> jsstring \<Rightarrow> jsstring" where
  "replace_first a b [] = []"
| "replace_first a b (c # cs) = (if c = a then b # cs else c # replace_first a b cs)"

fun truthy :: "jsval \<Rightarrow> bool" where
  "truthy Undefined = False"
| "truthy Null = False"
| "truthy (Num n) = (n \<noteq> 0)"
| "truthy Infinity = True"
| "truthy (Str t) = (t \<noteq> [])"

definition parseSummaryTimestamp ::
  "(jsstring \<Rightarrow> int option) \<Rightarrow> jsval \<Rightarrow> js_exception + int option" where
  "parseSummaryTimestamp date_parse timestamp =
     (if \<not> truthy timestamp then Inr None
      else case timestamp of
             Str t \<Rightarrow> Inr (date_parse (replace_first 0x20 0x54 t))
           | _ \<Rightarrow> Inl TypeError)"

text \<open>
  The page is not part of the program. The handlers write to elements they look up by
  id, and a write to an element that is not there throws \<^verbatim>\<open>TypeError\<close>: a page is
  the set of the elements it has. \<open>StatusBar\<close> is the element of
  \<^verbatim>\<open>updateStatus\<close>, \<open>EditModal\<close> that of \<^verbatim>\<open>closeModal\<close>, \<open>FilenameLabel\<close> and
  \<open>TotalCount\<close> are written by lines 81 and 82, \<open>LastExportInfo\<close> is the element
  line 607 tests.
\<close>

datatype element = StatusBar | EditModal | FilenameLabel | TotalCount | LastExportInfo

type_synonym page = "element \<Rightarrow> bool"

text \<open>
  \<open>updateLastExportInfo\<close>: the first argument says whether the page has the element
  that displays the last export (line 607 returns when it has not); the argument
  after \<open>date_parse\<close> is \<^verbatim>\<open>summary.last_exported_at\<close>. An exception of
  \<^verbatim>\<open>parseSummaryTimestamp\<close> leaves the function before the assignment of line 616.
  A number is truthy when it is not 0, and a \<^verbatim>\<open>Date\<close> object always is.
\<close>

definition updateLastExportInfo ::
  "bool \<Rightarrow> (jsstring \<Rightarrow> int option) \<Rightarrow> jsval \<Rightarrow> state \<Rightarrow> js_exception option \<times> state" where
  "updateLastExportInfo has_element date_parse last_exported_at s0 =
     (if \<not> has_element then (None, s0)
      else
        (case parseSummaryTimestamp date_parse last_exported_at of
           Inl e \<Rightarrow> (Some e, s0)
         | Inr parsed \<Rightarrow>
             (let s = s0\<lparr>lastExportedAt := parsed\<rparr>
              in (None,
                  (case (lastChangeTimestamp s, lastExportedAt s) of
                     (Some changed, Some exported) \<Rightarrow>
                       if changed \<noteq> 0 \<and> exported \<ge> changed
                       then s\<lparr>hasUnsavedChanges := False, lastChangeTimestamp := None\<rparr>
                       else s
                   | _ \<Rightarrow> s)))))"

definition markUnsavedChanges :: "int \<Rightarrow> state \<Rightarrow> state" where
  "markUnsavedChanges now s = s\<lparr>hasUnsavedChanges := True, lastChangeTimestamp := Some now\<rparr>"

definition resetUnsavedChanges :: "state \<Rightarrow> state" where
  "resetUnsavedChanges s = s\<lparr>hasUnsavedChanges := False, lastChangeTimestamp := None\<rparr>"

text \<open>
  \<^verbatim>\<open>loadData\<close> as a call (lines 48 to 67). The response is \<open>None\<close> for a failed
  request and \<open>Some\<close> of the rows otherwise. The first statement of the
  \<^verbatim>\<open>try\<close> block and the \<^verbatim>\<open>catch\<close> block both call \<^verbatim>\<open>updateStatus\<close>: without the
  status bar the exception leaves the function before the request is made. With it
  every exception is caught (that of \<^verbatim>\<open>updateTable\<close> too, after the two
  assignments).
\<close>

definition loadData_call :: "page \<Rightarrow> row list option \<Rightarrow> state \<Rightarrow> js_exception option \<times> state" where
  "loadData_call page response s =
     (if \<not> page StatusBar then (Some TypeError, s)
      else (None, (case response of None \<Rightarrow> s | Some rows \<Rightarrow> loadData rows s)))"

text \<open>
  \<^verbatim>\<open>loadSummary\<close> (lines 70 to 95) catches every exception. The response is
  \<open>None\<close> for a failed request and \<open>Some\<close> of \<^verbatim>\<open>last_exported_at\<close> otherwise
  (\<open>Undefined\<close> when the summary has no such property). Lines 81 and 82 write to two
  elements before \<^verbatim>\<open>updateLastExportInfo\<close> is called: when one of them is
  missing, the exception skips the call. The writes after the call change nothing of
  the state.
\<close>

definition loadSummary ::
  "page \<Rightarrow> (jsstring \<Rightarrow> int option) \<Rightarrow> jsval option \<Rightarrow> state \<Rightarrow> state" where
  "loadSummary page date_parse response s =
     (case response of
        None \<Rightarrow> s
      | Some last_exported_at \<Rightarrow>
          if page FilenameLabel \<and> page TotalCount
          then snd (updateLastExportInfo (page LastExportInfo) date_parse last_exported_at s)
          else s)"

text \<open>
  What the handlers do once the backend has answered with success. Add and update
  (lines 531 to 538) show the message, close the modal, reload and then mark; delete
  (lines 568 to 574) shows the message, reloads and then marks; the export of the
  processed data (lines 372 to 375) shows the message, resets and then reloads the
  summary. An exception on the way (a missing element) goes to the \<^verbatim>\<open>catch\<close> block
  of the handler, which changes nothing of the state.
\<close>

definition handleFormSubmit_success ::
  "page \<Rightarrow> (jsstring \<Rightarrow> int option) \<Rightarrow> row list option \<Rightarrow> jsval option \<Rightarrow> int \<Rightarrow>
   state \<Rightarrow> state" where
  "handleFormSubmit_success page date_parse data summary now s =
     (if page StatusBar \<and> page EditModal
      then markUnsavedChanges now
             (loadSummary page date_parse summary (snd (loadData_call page data s)))
      else s)"

definition deleteRow_success ::
  "page \<Rightarrow> (jsstring \<Rightarrow> int option) \<Rightarrow> row list option \<Rightarrow> jsval option \<Rightarrow> int \<Rightarrow>
   state \<Rightarrow> state" where
  "deleteRow_success page date_parse data summary now s =
     (if page StatusBar
      then markUnsavedChanges now
             (loadSummary page date_parse summary (snd (loadData_call page data s)))
      else s)"

definition exportProcessedData_success ::
  "page \<Rightarrow> (jsstring \<Rightarrow> int option) \<Rightarrow> jsval option \<Rightarrow> state \<Rightarrow> state" where
  "exportProcessedData_success page date_parse summary s =
     (if page StatusBar
      then loadSummary page date_parse summary (resetUnsavedChanges s)
      else s)"

text \<open>
  The tracker as the page observes it: the \<^verbatim>\<open>beforeunload\<close> handler (lines 40 to
  45) asks for confirmation exactly when the flag is set. \<open>dashboard\<close> is a page
  with all five elements, \<open>without_export_info\<close> the same page without the element
  that displays the last export. \<open>example_date_parse\<close> is the parsing of dates on
  the two timestamps of the concrete inputs, with time values 2000 and 500.
\<close>

datatype tracker = Clean | Dirty

definition tracker_state :: "state \<Rightarrow> tracker" where
  "tracker_state s = (if hasUnsavedChanges s then Dirty else Clean)"

definition beforeunload_prompts :: "state \<Rightarrow> bool" where
  "beforeunload_prompts s = hasUnsavedChanges s"

definition dashboard :: page where
  "dashboard e = True"

definition without_export_info :: page where
  "without_export_info e = (e \<noteq> LastExportInfo)"

definition example_date_parse :: "jsstring \<Rightarrow> int option" where
  "example_date_parse t =
     (if t = js ''2024-05-01T10:00:00'' then Some 2000
      else if t = js ''2024-04-01T10:00:00'' then Some 500
      else None)"

subsection \<open>The download name (extractFilenameFromDisposition, lines 582 to 596)\<close>

text \<open>
  \<^verbatim>\<open>decodeURIComponent\<close> follows the Decode operation of the language: a code unit
  other than \<^verbatim>\<open>%\<close> is copied; \<^verbatim>\<open>%\<close> must be followed by two hexadecimal
  digits, which give an octet; an octet below 128 is a character; an octet with two,
  three or four leading one-bits opens a sequence of as many octets, each written as
  an escape of its own, which must be the UTF-8 encoding of one code point; the code
  point is appended in UTF-16. Everything else throws \<^verbatim>\<open>URIError\<close>.
\<close>

definition hex_value :: "nat \<Rightarrow> nat option" where
  "hex_value c = digit_value 16 c"

definition escape_octet :: "jsstring \<Rightarrow> (nat \<times> jsstring) option" where
  "escape_octet s =
     (case s of
        p # h1 # h2 # rest \<Rightarrow>
          (if p = 0x25 then
             (case (hex_value h1, hex_value h2) of
                (Some a, Some b) \<Rightarrow> Some (16 * a + b, rest)
              | _ \<Rightarrow> None)
           else None)
      | _ \<Rightarrow> None)"

fun continuation_octets :: "nat \<Rightarrow> jsstring \<Rightarrow> (nat list \<times> jsstring) option" where
  "continuation_octets 0 s = Some ([], s)"
| "continuation_octets (Suc n) s =
     (case escape_octet s of
        None \<Rightarrow> None
      | Some (b, rest) \<Rightarrow>
          (case continuation_octets n rest of
             None \<Rightarrow> None
           | Some (bs, rest') \<Rightarrow> Some (b # bs, rest')))"

definition leading_ones :: "nat \<Rightarrow> nat" where
  "leading_ones B =
     (if B < 0x80 then 0 else if B < 0xC0 then 1 else if B < 0xE0 then 2
      else if B < 0xF0 then 3 else if B < 0xF8 then 4 else 5)"

text \<open>
  The well-formed UTF-8 sequences of two to four octets: no overlong forms, no
  surrogates, nothing above U+10FFFF.
\<close>

definition is_continuation :: "nat \<Rightarrow> bool" where
  "is_continuation b = (0x80 \<le> b \<and> b \<le> 0xBF)"

definition utf8_code_point :: "nat list \<Rightarrow> nat option" where
  "utf8_code_point octets =
     (case octets of
        [b0, b1] \<Rightarrow>
          if 0xC2 \<le> b0 \<and> b0 \<le> 0xDF \<and> is_continuation b1
          then Some ((b0 - 0xC0) * 64 + (b1 - 0x80)) else None
      | [b0, b1, b2] \<Rightarrow>
          if 0xE0 \<le> b0 \<and> b0 \<le> 0xEF \<and> is_continuation b1 \<and> is_continuation b2 \<and>
             (if b0 = 0xE0 then 0xA0 \<le> b1 else True) \<and> (if b0 = 0xED then b1 \<le> 0x9F else True)
          then Some ((b0 - 0xE0) * 4096 + (b1 - 0x80) * 64 + (b2 - 0x80)) else None
      | [b0, b1, b2, b3] \<Rightarrow>
          if 0xF0 \<le> b0 \<and> b0 \<le> 0xF4 \<and> is_continuation b1 \<and> is_continuation b2 \<and>
             is_continuation b3 \<and>
             (if b0 = 0xF0 then 0x90 \<le> b1 else True) \<and> (if b0 = 0xF4 then b1 \<le> 0x8F else True)
          then Some ((b0 - 0xF0) * 262144 + (b1 - 0x80) * 4096 + (b2 - 0x80) * 64 + (b3 - 0x80))
          else None
      | _ \<Rightarrow> None)"

definition utf16_encode :: "nat \<Rightarrow> jsstring" where
  "utf16_encode cp =
     (if cp < 0x10000 then [cp]
      else [0xD800 + (cp - 0x10000) div 1024, 0xDC00 + (cp - 0x10000) mod 1024])"

text \<open>One step of the decoding: the code units produced and the input that remains.\<close>

definition decode_step :: "jsstring \<Rightarrow> (jsstring \<times> jsstring) option" where
  "decode_step s =
     (case s of
        [] \<Rightarrow> None
      | c # cs \<Rightarrow>
          if c \<noteq> 0x25 then Some ([c], cs)
          else
            (case escape_octet s of
               None \<Rightarrow> None
             | Some (B, rest) \<Rightarrow>
                 (let n = leading_ones B
                  in if n = 0 then Some ([B], rest)
                     else if n = 1 \<or> 4 < n then None
                     else
                       (case continuation_octets (n - 1) rest of
                          None \<Rightarrow> None
                        | Some (bs, rest') \<Rightarrow>
                            (case utf8_code_point (B # bs) of
                               None \<Rightarrow> None
                             | Some V \<Rightarrow> Some (utf16_encode V, rest'))))))"

text \<open>Each step consumes input, so the decoding terminates.\<close>

lemma escape_octet_shorter: "escape_octet s = Some (b, rest) \<Longrightarrow> length rest < length s"
  by (auto simp: escape_octet_def split: list.splits if_splits option.splits)

lemma continuation_octets_shorter:
  "continuation_octets n s = Some (bs, rest) \<Longrightarrow> length rest \<le> length s"
proof (induction n arbitrary: s bs rest)
  case 0
  then show ?case by simp
next
  case (Suc n)
  then show ?case
    by (fastforce split: option.splits dest: escape_octet_shorter)
qed

lemma decode_step_shorter:
  assumes "decode_step s = Some (S, rest)"
  shows "length rest < length s"
proof (cases s)
  case Nil
  with assms show ?thesis by (simp add: decode_step_def)
next
  case (Cons c cs)
  show ?thesis
  proof (cases "c = 0x25")
    case False
    with assms Cons show ?thesis by (simp add: decode_step_def)
  next
    case True
    with assms Cons obtain B r1 where e: "escape_octet s = Some (B, r1)"
      by (cases "escape_octet s") (auto simp: decode_step_def)
    have l1: "length r1 < length s" using e by (rule escape_octet_shorter)
    have d: "decode_step s =
        (let n = leading_ones B
         in if n = 0 then Some ([B], r1)
            else if n = 1 \<or> 4 < n then None
            else
              (case continuation_octets (n - 1) r1 of
                 None \<Rightarrow> None
               | Some (bs, rest') \<Rightarrow>
                   (case utf8_code_point (B # bs) of
                      None \<Rightarrow> None
                    | Some V \<Rightarrow> Some (utf16_encode V, rest'))))"
      using Cons True e by (simp add: decode_step_def)
    show ?thesis
    proof (cases "leading_ones B = 0")
      case True
      with assms d have "rest = r1" by simp
      with l1 show ?thesis by simp
    next
      case False
      with assms d obtain bs where
        c: "continuation_octets (leading_ones B - 1) r1 = Some (bs, rest)"
        by (auto simp: Let_def split: if_splits option.splits)
      have "length rest \<le> length r1" using c by (rule continuation_octets_shorter)
      with l1 show ?thesis by simp
    qed
  qed
qed

function decodeURIComponent :: "jsstring \<Rightarrow> js_exception + jsstring" where
  "decodeURIComponent s =
     (if s = [] then Inr []
      else
        (case decode_step s of
           None \<Rightarrow> Inl URIError
         | Some (S, rest) \<Rightarrow>
             (case decodeURIComponent rest of
                Inl e \<Rightarrow> Inl e
              | Inr R \<Rightarrow> Inr (S @ R))))"
  by pat_completeness auto
termination
  by (relation "measure length") (auto dest: decode_step_shorter)

declare decodeURIComponent.simps [simp del]

text \<open>
  The regular expression of line 583, with the flag \<^verbatim>\<open>i\<close>. Its literal characters
  are ASCII, so a code unit matches one of them exactly when the two are equal up to
  the case of an ASCII letter. \<open>match_literal\<close> returns what follows the literal.
\<close>

definition canonicalize :: "nat \<Rightarrow> nat" where
  "canonicalize c = (if 0x61 \<le> c \<and> c \<le> 0x7A then c - 0x20 else c)"

fun match_literal :: "jsstring \<Rightarrow> jsstring \<Rightarrow> jsstring option" where
  "match_literal [] s = Some s"
| "match_literal (p # ps) [] = None"
| "match_literal (p # ps) (c # cs) =
     (if canonicalize c = canonicalize p then match_literal ps cs else None)"

text \<open>
  First alternative: the literal \<^verbatim>\<open>filename*=UTF-8''\<close> and then one or more code
  units other than the semicolon, as many as there are (group 1). Second alternative:
  the literal \<^verbatim>\<open>filename=\<close>, an optional double quote, one or more code units
  other than the double quote and the semicolon (group 2), an optional double quote.
  The optional quote is tried first; when no group can follow it, the match is tried
  without it.
\<close>

definition encoded_alternative :: "jsstring \<Rightarrow> jsstring option" where
  "encoded_alternative s =
     (case match_literal (js ''filename*=UTF-8'' @ [0x27, 0x27]) s of
        None \<Rightarrow> None
      | Some rest \<Rightarrow>
          (let run = takeWhile (\<lambda>c. c \<noteq> 0x3B) rest
           in if run = [] then None else Some run))"

definition plain_alternative :: "jsstring \<Rightarrow> jsstring option" where
  "plain_alternative s =
     (case match_literal (js ''filename='') s of
        None \<Rightarrow> None
      | Some rest \<Rightarrow>
          (let quoted = takeWhile (\<lambda>c. c \<noteq> 0x22 \<and> c \<noteq> 0x3B) (tl rest);
               bare = takeWhile (\<lambda>c. c \<noteq> 0x22 \<and> c \<noteq> 0x3B) rest
           in if rest \<noteq> [] \<and> hd rest = 0x22 \<and> quoted \<noteq> [] then Some quoted
              else if bare \<noteq> [] then Some bare
              else None))"

text \<open>
  \<^verbatim>\<open>exec\<close> tries the positions from left to right and, at each position, the first
  alternative before the second. The result is the pair of the two groups, \<open>None\<close>
  for a group that did not take part (\<^verbatim>\<open>undefined\<close>).
\<close>

definition match_here :: "jsstring \<Rightarrow> (jsstring option \<times> jsstring option) option" where
  "match_here s =
     (case encoded_alternative s of
        Some encoded \<Rightarrow> Some (Some encoded, None)
      | None \<Rightarrow>
          (case plain_alternative s of
             Some plain \<Rightarrow> Some (None, Some plain)
           | None \<Rightarrow> None))"

fun filenameRegex_exec :: "jsstring \<Rightarrow> (jsstring option \<times> jsstring option) option" where
  "filenameRegex_exec [] = match_here []"
| "filenameRegex_exec (c # cs) =
     (case match_here (c # cs) of
        Some m \<Rightarrow> Some m
      | None \<Rightarrow> filenameRegex_exec cs)"

text \<open>
  \<^verbatim>\<open>try { body } catch (e) { handler }\<close>: an exception of the body is passed to the
  handler, and an exception of the handler leaves the statement.
\<close>

definition try_catch ::
  "(js_exception + 'a) \<Rightarrow> (js_exception \<Rightarrow> js_exception + 'a) \<Rightarrow> js_exception + 'a" where
  "try_catch body handler = (case body of Inl e \<Rightarrow> handler e | Inr v \<Rightarrow> Inr v)"

text \<open>
  The function itself. \<open>Inl\<close> is an exception that leaves the function;
  \<open>Inr None\<close> is \<^verbatim>\<open>null\<close>. A string is truthy when it is not empty, and
  \<^verbatim>\<open>undefined\<close> is falsy. The second group, when it took part, is returned as it is.
\<close>

definition extractFilenameFromDisposition :: "jsstring \<Rightarrow> js_exception + jsstring option" where
  "extractFilenameFromDisposition disposition =
     (case filenameRegex_exec disposition of
        None \<Rightarrow> Inr None
      | Some (encoded, plain) \<Rightarrow>
          (if encoded \<noteq> None \<and> encoded \<noteq> Some [] then
             try_catch
               (case decodeURIComponent (the encoded) of
                  Inl e \<Rightarrow> Inl e
                | Inr decoded \<Rightarrow> Inr (Some decoded))
               (\<lambda>e. Inr encoded)
           else Inr plain))"

text \<open>
  Where the expression can match, said without the matcher: \<open>encoded_text s\<close> holds
  when \<open>s\<close> begins with the literal of the first alternative (in any case of its
  letters) and a code unit other than the semicolon; \<open>plain_text s\<close> when \<open>s\<close> begins
  with \<^verbatim>\<open>filename=\<close> and then a code unit other than the double quote and the
  semicolon, directly or after one double quote. \<open>filename_text_occurs d\<close> holds when
  one of the two is the case at some position of \<open>d\<close>; nothing is required of what
  stands before that position.
\<close>

definition encoded_text :: "jsstring \<Rightarrow> bool" where
  "encoded_text s =
     (\<exists>name c rest. s = name @ c # rest \<and>
        map canonicalize name = map canonicalize (js ''filename*=UTF-8'' @ [0x27, 0x27]) \<and>
        c \<noteq> 0x3B)"

definition plain_text :: "jsstring \<Rightarrow> bool" where
  "plain_text s =
     (\<exists>name c rest. map canonicalize name = map canonicalize (js ''filename='') \<and>
        c \<noteq> 0x22 \<and> c \<noteq> 0x3B \<and> (s = name @ c # rest \<or> s = name @ 0x22 # c # rest))"

definition filename_text_occurs :: "jsstring \<Rightarrow> bool" where
  "filename_text_occurs d = (\<exists>before s. d = before @ s \<and> (encoded_text s \<or> plain_text s))"

section \<open>Properties\<close>

subsection \<open>Filters\<close>

lemma new_array_fresh:
  "new_array s \<noteq> allData s" "new_array s \<noteq> filteredData s"
  "allData s \<noteq> new_array s" "filteredData s \<noteq> new_array s"
  by (simp_all add: new_array_def)

lemma assign_filtered_visible:
  "visible (assign_filtered p s) = filter p (dataset s)"
  by (simp add: assign_filtered_def visible_def dataset_def Let_def)

lemma assign_filtered_dataset:
  "dataset (assign_filtered p s) = dataset s"
  by (simp add: assign_filtered_def dataset_def Let_def new_array_fresh)

lemmas filter_eval = filterData_def assign_filtered_def skill1_limit_row_def expired_row_def
  loadData_def initial_state_def new_array_def dataset_def visible_def Let_def js_def

text \<open>
  C1, as stated, fails: the \<^verbatim>\<open>skill1_limit\<close> filter does not read the days
  already elapsed. A record with 1650 days already elapsed (1650 + 184 > 1826) whose
  numeric day count is 100 is not shown, and a record with no days already elapsed
  whose numeric day count is 1700 is shown.
\<close>

theorem skill1_limit_ignores_days_already_elapsed_counterexample:
  "ki_manryo_nissu ((example_row 1 (js ''a'') None (Some 100))\<lparr>ki_manryo_nissu := Some 1650\<rparr>)
     = Some 1650
   \<and> (1650::int) + 184 > 1826
   \<and> map index (dataset (loadData
        [(example_row 1 (js ''a'') None (Some 100))\<lparr>ki_manryo_nissu := Some 1650\<rparr>,
         example_row 2 (js ''b'') None (Some 1700)] initial_state)) = [1, 2]
   \<and> map index (visible (filterData (js ''skill1_limit'') (loadData
        [(example_row 1 (js ''a'') None (Some 100))\<lparr>ki_manryo_nissu := Some 1650\<rparr>,
         example_row 2 (js ''b'') None (Some 1700)] initial_state))) = [2]"
  by (simp add: filter_eval example_row_def)

text \<open>
  C1, amended. Selecting the \<^verbatim>\<open>skill1_limit\<close> filter shows exactly the records of
  the Dataset whose numeric day count (the value of the day-count column, not the
  days already elapsed) is not null and satisfies \<open>days + 184 > 1826\<close>, in Dataset
  order; neither the days already elapsed nor the status category of the record is
  consulted.
\<close>

theorem skill1_limit_filter_iff:
  "visible (filterData (js ''skill1_limit'') s) =
     filter (\<lambda>r. manryo_nissu_value r \<noteq> None \<and> the (manryo_nissu_value r) + 184 > 1826)
       (dataset s)
   \<and> (r \<in> set (visible (filterData (js ''skill1_limit'') s)) \<longleftrightarrow>
        r \<in> set (dataset s) \<and> manryo_nissu_value r \<noteq> None \<and>
        the (manryo_nissu_value r) + 184 > 1826)"
proof -
  have p: "skill1_limit_row =
      (\<lambda>r. manryo_nissu_value r \<noteq> None \<and> the (manryo_nissu_value r) + 184 > 1826)"
    by (rule ext) (simp add: skill1_limit_row_def split: option.split)
  have v: "visible (filterData (js ''skill1_limit'') s) = filter skill1_limit_row (dataset s)"
    by (simp add: filterData_def js_def Let_def assign_filtered_visible)
      (simp add: dataset_def)
  show ?thesis
    unfolding v p by auto
qed

subsection \<open>The sort as a stable insertion in a strict linear order\<close>

lemma set_insert_sorted: "set (insert_sorted cmp x ys) = insert x (set ys)"
  by (induction ys) auto

lemma set_array_sort: "set (array_sort cmp xs) = set xs"
  by (induction xs) (auto simp: set_insert_sorted)

lemma sl_irrefl: "strict_linear lt \<Longrightarrow> \<not> lt x x"
  by (simp add: strict_linear_def)

lemma sl_trans: "strict_linear lt \<Longrightarrow> lt x y \<Longrightarrow> lt y z \<Longrightarrow> lt x z"
  unfolding strict_linear_def by blast

lemma sl_total: "strict_linear lt \<Longrightarrow> x \<noteq> y \<Longrightarrow> \<not> lt x y \<Longrightarrow> lt y x"
  unfolding strict_linear_def by blast

lemma sl_asym: "strict_linear lt \<Longrightarrow> lt x y \<Longrightarrow> \<not> lt y x"
  using sl_irrefl sl_trans by metis

lemma strict_linear_flip: "strict_linear lt \<Longrightarrow> strict_linear (\<lambda>x y. lt y x)"
  unfolding strict_linear_def by blast

lemma key_cmp_descending:
  assumes "strict_linear lt"
  shows "key_cmp lt key False = key_cmp (\<lambda>x y. lt y x) key True"
proof (intro ext)
  fix a b
  show "key_cmp lt key False a b = key_cmp (\<lambda>x y. lt y x) key True a b"
    using sl_asym[OF assms, of "key a" "key b"]
    by (auto simp: key_cmp_def compare_result_def)
qed

lemma key_cmp_le:
  assumes "strict_linear lt" and "key x \<noteq> key y"
  shows "(key_cmp lt key True x y \<le> 0) = lt (key x) (key y)"
proof (cases "lt (key x) (key y)")
  case True
  then show ?thesis by (simp add: key_cmp_def compare_result_def)
next
  case False
  then have "lt (key y) (key x)" using sl_total assms by metis
  with False show ?thesis by (simp add: key_cmp_def compare_result_def)
qed

lemma sorted_insert_sorted:
  assumes sl: "strict_linear lt"
  shows "sorted_wrt (\<lambda>a b. lt (key a) (key b)) ys \<Longrightarrow> key x \<notin> key ` set ys \<Longrightarrow>
     sorted_wrt (\<lambda>a b. lt (key a) (key b)) (insert_sorted (key_cmp lt key True) x ys)"
proof (induction ys)
  case Nil
  then show ?case by simp
next
  case (Cons y ys)
  have ne: "key x \<noteq> key y" using Cons.prems by auto
  have le: "(key_cmp lt key True x y \<le> 0) = lt (key x) (key y)"
    using sl ne by (rule key_cmp_le)
  show ?case
  proof (cases "lt (key x) (key y)")
    case True
    have "\<forall>z\<in>set ys. lt (key x) (key z)"
    proof
      fix z assume "z \<in> set ys"
      then have "lt (key y) (key z)" using Cons.prems(1) by auto
      with True show "lt (key x) (key z)" using sl_trans[OF sl] by blast
    qed
    with True Cons.prems(1) show ?thesis
      by (simp add: le)
  next
    case False
    then have yx: "lt (key y) (key x)"
      using sl_total[OF sl ne] by blast
    have "sorted_wrt (\<lambda>a b. lt (key a) (key b)) (insert_sorted (key_cmp lt key True) x ys)"
      using Cons by auto
    with False yx Cons.prems(1) show ?thesis
      by (auto simp: le set_insert_sorted)
  qed
qed

lemma sorted_array_sort:
  assumes sl: "strict_linear lt"
  shows "distinct (map key xs) \<Longrightarrow>
     sorted_wrt (\<lambda>a b. lt (key a) (key b)) (array_sort (key_cmp lt key True) xs)"
proof (induction xs)
  case Nil
  then show ?case by simp
next
  case (Cons x xs)
  then show ?case
    by (auto intro!: sorted_insert_sorted[OF sl] simp: set_array_sort)
qed

lemma sorted_wrt_unique:
  assumes sl: "strict_linear lt"
  shows "sorted_wrt (\<lambda>a b. lt (key a) (key b)) xs \<Longrightarrow>
     sorted_wrt (\<lambda>a b. lt (key a) (key b)) ys \<Longrightarrow> set xs = set ys \<Longrightarrow> xs = ys"
proof (induction xs arbitrary: ys)
  case Nil
  then show ?case by simp
next
  case (Cons x xs)
  then obtain y ys' where ys: "ys = y # ys'" by (cases ys) auto
  have xy: "x = y"
  proof (rule ccontr)
    assume "x \<noteq> y"
    then have "x \<in> set ys'" "y \<in> set xs" using Cons.prems(3) ys by auto
    then have "lt (key y) (key x)" "lt (key x) (key y)"
      using Cons.prems(1,2) ys by auto
    then show False using sl_asym[OF sl] by blast
  qed
  have "x \<notin> set xs" "y \<notin> set ys'" using Cons.prems(1,2) ys sl_irrefl[OF sl] by auto
  then have "set xs = set ys'" using Cons.prems(3) ys xy by auto
  then have "xs = ys'" using Cons.IH[of ys'] Cons.prems(1,2) ys by auto
  then show ?case using xy ys by simp
qed

lemma sorted_distinct_keys:
  assumes sl: "strict_linear lt"
  shows "sorted_wrt (\<lambda>a b. lt (key a) (key b)) xs \<Longrightarrow> distinct (map key xs)"
proof (induction xs)
  case Nil
  then show ?case by simp
next
  case (Cons x xs)
  have "key x \<notin> key ` set xs"
  proof
    assume "key x \<in> key ` set xs"
    then obtain z where "z \<in> set xs" "key z = key x" by auto
    then have "lt (key x) (key x)" using Cons.prems by auto
    then show False using sl_irrefl[OF sl] by blast
  qed
  then show ?case using Cons by auto
qed

lemma sort_ascending_then_descending:
  assumes sl: "strict_linear lt" and d: "distinct (map key xs)"
  shows "array_sort (key_cmp lt key False) (array_sort (key_cmp lt key True) xs)
         = rev (array_sort (key_cmp lt key True) xs)"
proof -
  let ?A = "array_sort (key_cmp lt key True) xs"
  have fl: "strict_linear (\<lambda>x y. lt y x)" using sl by (rule strict_linear_flip)
  have a: "sorted_wrt (\<lambda>a b. lt (key a) (key b)) ?A" by (rule sorted_array_sort[OF sl d])
  have da: "distinct (map key ?A)" by (rule sorted_distinct_keys[OF sl a])
  have 1: "sorted_wrt (\<lambda>a b. lt (key b) (key a)) (array_sort (key_cmp lt key False) ?A)"
    unfolding key_cmp_descending[OF sl] by (rule sorted_array_sort[OF fl da])
  have 2: "sorted_wrt (\<lambda>a b. lt (key b) (key a)) (rev ?A)"
    using a by (simp add: sorted_wrt_rev)
  show ?thesis
    by (rule sorted_wrt_unique[OF fl 1 2]) (simp add: set_array_sort)
qed

lemma sort_descending_then_ascending:
  assumes sl: "strict_linear lt" and d: "distinct (map key xs)"
  shows "array_sort (key_cmp lt key True) (array_sort (key_cmp lt key False) xs)
         = rev (array_sort (key_cmp lt key False) xs)"
proof -
  have fl: "strict_linear (\<lambda>x y. lt y x)" using sl by (rule strict_linear_flip)
  have up: "key_cmp lt key True = key_cmp (\<lambda>x y. lt y x) key False"
    using key_cmp_descending[OF fl, of key] by simp
  show ?thesis
    unfolding up key_cmp_descending[OF sl]
    using sort_ascending_then_descending[OF fl d] .
qed

lemma key_cmp_le_weak:
  assumes "strict_linear lt"
  shows "(key_cmp lt key True x y \<le> 0) = (\<not> lt (key y) (key x))"
  using sl_asym[OF assms, of "key x" "key y"]
  by (auto simp: key_cmp_def compare_result_def)

lemma not_less_trans:
  assumes sl: "strict_linear lt" and "\<not> lt b a" "\<not> lt c b"
  shows "\<not> lt c a"
  using assms sl_trans[OF sl] sl_total[OF sl] by metis

lemma weakly_sorted_insert_sorted:
  assumes sl: "strict_linear lt"
  shows "sorted_wrt (\<lambda>a b. \<not> lt (key b) (key a)) ys \<Longrightarrow>
     sorted_wrt (\<lambda>a b. \<not> lt (key b) (key a)) (insert_sorted (key_cmp lt key True) x ys)"
proof (induction ys)
  case Nil
  then show ?case by simp
next
  case (Cons y ys)
  show ?case
  proof (cases "lt (key y) (key x)")
    case False
    have "\<forall>z\<in>set ys. \<not> lt (key z) (key x)"
    proof
      fix z assume "z \<in> set ys"
      then have "\<not> lt (key z) (key y)" using Cons.prems by auto
      with False show "\<not> lt (key z) (key x)" using not_less_trans[OF sl] by blast
    qed
    with False Cons.prems show ?thesis
      by (simp add: key_cmp_le_weak[OF sl])
  next
    case True
    then have "\<not> lt (key x) (key y)" using sl_asym[OF sl] by blast
    moreover have "sorted_wrt (\<lambda>a b. \<not> lt (key b) (key a)) (insert_sorted (key_cmp lt key True) x ys)"
      using Cons by auto
    ultimately show ?thesis using True Cons.prems
      by (auto simp: key_cmp_le_weak[OF sl] set_insert_sorted)
  qed
qed

lemma weakly_sorted_array_sort:
  assumes sl: "strict_linear lt"
  shows "sorted_wrt (\<lambda>a b. \<not> lt (key b) (key a)) (array_sort (key_cmp lt key True) xs)"
  by (induction xs) (auto intro: weakly_sorted_insert_sorted[OF sl])

text \<open>The result of the sort depends on the comparison of the elements of the list only.\<close>

lemma insert_sorted_cong:
  "(\<And>y. y \<in> set ys \<Longrightarrow> cmp x y = cmp' x y) \<Longrightarrow> insert_sorted cmp x ys = insert_sorted cmp' x ys"
  by (induction ys) auto

lemma array_sort_cong:
  "(\<And>x y. x \<in> set xs \<Longrightarrow> y \<in> set xs \<Longrightarrow> cmp x y = cmp' x y) \<Longrightarrow>
     array_sort cmp xs = array_sort cmp' xs"
proof (induction xs)
  case Nil
  then show ?case by simp
next
  case (Cons x xs)
  have "array_sort cmp xs = array_sort cmp' xs" using Cons by auto
  moreover have "insert_sorted cmp x (array_sort cmp' xs) = insert_sorted cmp' x (array_sort cmp' xs)"
    by (rule insert_sorted_cong) (use Cons.prems in \<open>auto simp: set_array_sort\<close>)
  ultimately show ?case by simp
qed

text \<open>Stability: elements that compare as equal never pass one another.\<close>

lemma filter_insert_sorted:
  "(\<And>y. y \<in> set ys \<Longrightarrow> P x \<Longrightarrow> P y \<Longrightarrow> cmp x y \<le> 0) \<Longrightarrow>
     filter P (insert_sorted cmp x ys) = (if P x then x # filter P ys else filter P ys)"
  by (induction ys) auto

lemma filter_array_sort:
  "(\<And>x y. x \<in> set xs \<Longrightarrow> y \<in> set xs \<Longrightarrow> P x \<Longrightarrow> P y \<Longrightarrow> cmp x y \<le> 0) \<Longrightarrow>
     filter P (array_sort cmp xs) = filter P xs"
proof (induction xs)
  case Nil
  then show ?case by simp
next
  case (Cons x xs)
  have ih: "filter P (array_sort cmp xs) = filter P xs" using Cons by auto
  have "filter P (insert_sorted cmp x (array_sort cmp xs)) =
      (if P x then x # filter P (array_sort cmp xs) else filter P (array_sort cmp xs))"
    by (rule filter_insert_sorted) (use Cons.prems in \<open>auto simp: set_array_sort\<close>)
  then show ?case using ih by simp
qed

subsection \<open>The comparison function on a well-typed column\<close>

lemma strict_linear_total_less: "strict_linear total_less"
  unfolding strict_linear_def
proof (intro conjI allI impI)
  fix x show "\<not> total_less x x" by (cases x) auto
next
  fix x y z assume "total_less x y" "total_less y z"
  then show "total_less x z" by (cases x; cases y; cases z) auto
next
  fix x y show "total_less x y \<or> x = y \<or> total_less y x"
    by (cases x; cases y) auto
qed

lemma strict_linear_string_less: "strict_linear ((<) :: jsstring \<Rightarrow> jsstring \<Rightarrow> bool)"
  unfolding strict_linear_def by auto

lemma total_less_number_less: "x \<noteq> NaN \<Longrightarrow> y \<noteq> NaN \<Longrightarrow> total_less x y = number_less x y"
  by (cases x; cases y) auto

lemma number_less_irrefl: "\<not> number_less x x"
  by (cases x) auto

lemma ToNumber_is_number: "is_number v \<Longrightarrow> ToNumber stn v \<noteq> NaN"
  by (cases v) (auto simp: is_number_def)

text \<open>The string of an operand that is a string, and the number of one that is not.\<close>

lemma comparefn_operand:
  "comparefn stn c asc a b =
     compare_result asc (js_less stn (operand c a) (operand c b))
       (js_less stn (operand c b) (operand c a))"
  by (simp add: comparefn_def operand_def Let_def)

lemma comparefn_strings:
  assumes "is_string (operand c a)" "is_string (operand c b)"
  shows "comparefn stn c asc a b = key_cmp (<) (\<lambda>r. projr (column_key stn c r)) asc a b"
proof -
  from assms obtain x y where "operand c a = Str x" "operand c b = Str y"
    by (auto simp: is_string_def split: jsval.splits)
  then show ?thesis
    by (simp add: comparefn_operand key_cmp_def column_key_def)
qed

lemma js_less_numbers:
  assumes "is_number u" "is_number v"
  shows "js_less stn u v = total_less (ToNumber stn u) (ToNumber stn v)"
proof -
  have "js_less stn u v = number_less (ToNumber stn u) (ToNumber stn v)"
    using assms by (cases u; cases v) (auto simp: is_number_def)
  then show ?thesis
    using assms by (simp add: total_less_number_less ToNumber_is_number)
qed

lemma column_key_number:
  "is_number (operand c r) \<Longrightarrow> column_key stn c r = Inl (ToNumber stn (operand c r))"
  by (cases "operand c r") (auto simp: column_key_def is_number_def)

lemma column_key_string:
  "is_string (operand c r) \<Longrightarrow> column_key stn c r = Inr (projr (column_key stn c r))"
  by (cases "operand c r") (auto simp: column_key_def is_string_def)

lemma comparefn_numbers:
  assumes "is_number (operand c a)" "is_number (operand c b)"
  shows "comparefn stn c asc a b = key_cmp total_less (\<lambda>r. projl (column_key stn c r)) asc a b"
  using assms by (simp add: comparefn_operand key_cmp_def js_less_numbers column_key_number)

text \<open>Rows with the same key compare as equal, whatever the values are.\<close>

lemma comparefn_same_key:
  assumes "column_key stn c a = column_key stn c b"
  shows "comparefn stn c asc a b = 0"
proof (cases "operand c a")
  case (Str x)
  with assms have "operand c b = Str x"
    by (cases "operand c b") (auto simp: column_key_def)
  with Str show ?thesis by (simp add: comparefn_operand compare_result_def)
next
  case Undefined
  with assms have n: "operand c b \<noteq> Str x" for x
    by (cases "operand c b") (auto simp: column_key_def)
  have e: "ToNumber stn (operand c a) = ToNumber stn (operand c b)"
    using assms Undefined by (cases "operand c b") (auto simp: column_key_def)
  have "js_less stn (operand c a) (operand c b) = number_less (ToNumber stn (operand c a)) (ToNumber stn (operand c b))"
    using Undefined by simp
  moreover have "js_less stn (operand c b) (operand c a) = number_less (ToNumber stn (operand c b)) (ToNumber stn (operand c a))"
    using Undefined by (cases "operand c b") auto
  ultimately show ?thesis
    by (simp add: comparefn_operand compare_result_def e number_less_irrefl)
next
  case Null
  have e: "ToNumber stn (operand c a) = ToNumber stn (operand c b)"
    using assms Null by (cases "operand c b") (auto simp: column_key_def)
  have "js_less stn (operand c a) (operand c b) = number_less (ToNumber stn (operand c a)) (ToNumber stn (operand c b))"
    using Null by simp
  moreover have "js_less stn (operand c b) (operand c a) = number_less (ToNumber stn (operand c b)) (ToNumber stn (operand c a))"
    using Null by (cases "operand c b") auto
  ultimately show ?thesis
    by (simp add: comparefn_operand compare_result_def e number_less_irrefl)
next
  case (Num n)
  have e: "ToNumber stn (operand c a) = ToNumber stn (operand c b)"
    using assms Num by (cases "operand c b") (auto simp: column_key_def)
  have "js_less stn (operand c a) (operand c b) = number_less (ToNumber stn (operand c a)) (ToNumber stn (operand c b))"
    using Num by simp
  moreover have "js_less stn (operand c b) (operand c a) = number_less (ToNumber stn (operand c b)) (ToNumber stn (operand c a))"
    using Num by (cases "operand c b") auto
  ultimately show ?thesis
    by (simp add: comparefn_operand compare_result_def e number_less_irrefl)
next
  case Infinity
  have e: "ToNumber stn (operand c a) = ToNumber stn (operand c b)"
    using assms Infinity by (cases "operand c b") (auto simp: column_key_def)
  have "js_less stn (operand c a) (operand c b) = number_less (ToNumber stn (operand c a)) (ToNumber stn (operand c b))"
    using Infinity by simp
  moreover have "js_less stn (operand c b) (operand c a) = number_less (ToNumber stn (operand c b)) (ToNumber stn (operand c a))"
    using Infinity by (cases "operand c b") auto
  ultimately show ?thesis
    by (simp add: comparefn_operand compare_result_def e number_less_irrefl)
qed

lemma distinct_map_through:
  assumes "distinct (map f xs)" and "\<And>x. x \<in> set xs \<Longrightarrow> f x = g (h x)"
  shows "distinct (map h xs)"
proof -
  have "inj_on h (set xs)"
  proof (rule inj_onI)
    fix x y assume "x \<in> set xs" "y \<in> set xs" "h x = h y"
    then have "f x = f y" using assms(2) by simp
    then show "x = y"
      using assms(1) \<open>x \<in> set xs\<close> \<open>y \<in> set xs\<close> by (auto simp: distinct_map inj_on_def)
  qed
  then show ?thesis using assms(1) by (simp add: distinct_map)
qed

lemma comparefn_sort_again:
  assumes wt: "well_typed_column c xs" and d: "distinct_in_column stn c xs"
  shows "array_sort (comparefn stn c (\<not> asc)) (array_sort (comparefn stn c asc) xs)
         = rev (array_sort (comparefn stn c asc) xs)"
proof -
  have main: "array_sort (comparefn stn c (\<not> asc)) (array_sort (comparefn stn c asc) xs)
         = rev (array_sort (comparefn stn c asc) xs)"
    if sl: "strict_linear lt"
      and eq: "\<And>a b g. a \<in> set xs \<Longrightarrow> b \<in> set xs \<Longrightarrow> comparefn stn c g a b = key_cmp lt key g a b"
      and dk: "distinct (map key xs)"
    for lt :: "'k \<Rightarrow> 'k \<Rightarrow> bool" and key
  proof -
    have 1: "array_sort (comparefn stn c asc) xs = array_sort (key_cmp lt key asc) xs"
      by (rule array_sort_cong) (rule eq)
    have 2: "array_sort (comparefn stn c (\<not> asc)) (array_sort (key_cmp lt key asc) xs)
        = array_sort (key_cmp lt key (\<not> asc)) (array_sort (key_cmp lt key asc) xs)"
      by (rule array_sort_cong) (simp_all add: set_array_sort eq)
    show ?thesis
      unfolding 1 2
      using sort_ascending_then_descending[OF sl dk] sort_descending_then_ascending[OF sl dk]
      by (cases asc) simp_all
  qed
  from wt consider
    (strings) "list_all (\<lambda>r. is_string (operand c r)) xs"
    | (numbers) "list_all (\<lambda>r. is_number (operand c r)) xs"
    by (auto simp: well_typed_column_def)
  then show ?thesis
  proof cases
    case strings
    then have s: "\<And>r. r \<in> set xs \<Longrightarrow> is_string (operand c r)" by (simp add: list_all_iff)
    have dk: "distinct (map (\<lambda>r. projr (column_key stn c r)) xs)"
      by (rule distinct_map_through[of "column_key stn c" xs Inr])
        (use d s column_key_string in \<open>auto simp: distinct_in_column_def\<close>)
    show ?thesis
      by (rule main[OF strict_linear_string_less _ dk]) (simp add: comparefn_strings s)
  next
    case numbers
    then have n: "\<And>r. r \<in> set xs \<Longrightarrow> is_number (operand c r)" by (simp add: list_all_iff)
    have dk: "distinct (map (\<lambda>r. projl (column_key stn c r)) xs)"
      by (rule distinct_map_through[of "column_key stn c" xs Inl])
        (use d n column_key_number in \<open>auto simp: distinct_in_column_def\<close>)
    show ?thesis
      by (rule main[OF strict_linear_total_less _ dk]) (simp add: comparefn_numbers n)
  qed
qed

lemma comparefn_stable:
  "filter (\<lambda>r. column_key stn c r = k) (array_sort (comparefn stn c asc) xs)
     = filter (\<lambda>r. column_key stn c r = k) xs"
  by (rule filter_array_sort) (simp add: comparefn_same_key)

subsection \<open>Sorting the visible sequence\<close>

lemma sortTable_visible:
  "visible (sortTable stn c s)
     = array_sort (comparefn stn c (sortAscending (sortTable stn c s))) (visible s)"
  by (simp add: sortTable_def visible_def Let_def)

lemma sortTable_column: "sortColumn (sortTable stn c s) = Some c"
  by (simp add: sortTable_def Let_def)

lemma sortTable_toggle:
  "sortColumn s = Some c \<Longrightarrow> sortAscending (sortTable stn c s) = (\<not> sortAscending s)"
  by (simp add: sortTable_def Let_def)

lemma sortTable_first:
  "sortColumn s \<noteq> Some c \<Longrightarrow> sortAscending (sortTable stn c s) = True"
  by (simp add: sortTable_def Let_def)

lemmas example_eval = example_row_def loadData_def initial_state_def sortTable_def new_array_def
  dataset_def visible_def Let_def comparefn_def compare_result_def
  null_to_infinity_def of_nullable_def no_numeric_strings_def

text \<open>
  C5, as stated, fails on ties. Two records with the same numeric day count keep their
  order in both directions, because the sort is stable and the comparison returns 0 for
  them: the second sort gives the same sequence, not the reversed one.
\<close>

theorem sort_twice_ties_counterexample:
  "map index (visible (sortTable no_numeric_strings (NumCol ManryoNissuValue)
     (sortTable no_numeric_strings (NumCol ManryoNissuValue)
       (loadData [example_row 1 (js ''a'') None (Some 5), example_row 2 (js ''b'') None (Some 5)]
          initial_state)))) = [1, 2]
   \<and> map index (rev (visible (sortTable no_numeric_strings (NumCol ManryoNissuValue)
       (loadData [example_row 1 (js ''a'') None (Some 5), example_row 2 (js ''b'') None (Some 5)]
          initial_state)))) = [2, 1]
   \<and> visible (sortTable no_numeric_strings (NumCol ManryoNissuValue)
     (sortTable no_numeric_strings (NumCol ManryoNissuValue)
       (loadData [example_row 1 (js ''a'') None (Some 5), example_row 2 (js ''b'') None (Some 5)]
          initial_state)))
     \<noteq> rev (visible (sortTable no_numeric_strings (NumCol ManryoNissuValue)
       (loadData [example_row 1 (js ''a'') None (Some 5), example_row 2 (js ''b'') None (Some 5)]
          initial_state)))"
  by (simp add: example_eval)

text \<open>
  C5, amended. Let \<open>c\<close> be a column whose values in the visible sequence are all
  strings or all numbers (\<^verbatim>\<open>null\<close> included), so that the comparison is consistent.
  Sorting by \<open>c\<close> is stable in both directions: after one sort and after a second
  sort by \<open>c\<close> (which runs in the opposite direction) the records with any one key
  stand in the order they had before. When moreover no two records of the visible
  sequence are equal in \<open>c\<close> (as the comparison sees them: \<^verbatim>\<open>null\<close> counts as 0, and
  as \<^verbatim>\<open>Infinity\<close> in the column of the numeric day count), the second sort yields
  the reverse of the first result, whatever the sort state was before.
\<close>

theorem sort_twice_reverses_distinct:
  assumes "well_typed_column c (visible s)"
  shows "filter (\<lambda>r. column_key stn c r = k) (visible (sortTable stn c s))
           = filter (\<lambda>r. column_key stn c r = k) (visible s)
       \<and> filter (\<lambda>r. column_key stn c r = k) (visible (sortTable stn c (sortTable stn c s)))
           = filter (\<lambda>r. column_key stn c r = k) (visible s)
       \<and> sortAscending (sortTable stn c (sortTable stn c s))
           = (\<not> sortAscending (sortTable stn c s))
       \<and> (distinct_in_column stn c (visible s) \<longrightarrow>
            visible (sortTable stn c (sortTable stn c s)) = rev (visible (sortTable stn c s)))"
proof -
  have t: "sortAscending (sortTable stn c (sortTable stn c s))
      = (\<not> sortAscending (sortTable stn c s))"
    by (rule sortTable_toggle) (rule sortTable_column)
  have st: "filter (\<lambda>r. column_key stn c r = k) (visible (sortTable stn c s'))
           = filter (\<lambda>r. column_key stn c r = k) (visible s')" for s'
    by (simp add: sortTable_visible comparefn_stable)
  have rv: "visible (sortTable stn c (sortTable stn c s)) = rev (visible (sortTable stn c s))"
    if d: "distinct_in_column stn c (visible s)"
    using comparefn_sort_again[OF assms d, of "sortAscending (sortTable stn c s)"]
    by (simp add: sortTable_visible[of stn c "sortTable stn c s"] t
        sortTable_visible[of stn c s, symmetric])
  show ?thesis using t st rv by simp
qed

theorem sort_twice_reverses_distinct_witness:
  "well_typed_column (NumCol ManryoNissuValue)
     (visible (loadData [example_row 1 (js ''a'') None (Some 5), example_row 2 (js ''b'') None None,
        example_row 3 (js ''c'') None (Some 3)] initial_state))
   \<and> distinct_in_column no_numeric_strings (NumCol ManryoNissuValue)
     (visible (loadData [example_row 1 (js ''a'') None (Some 5), example_row 2 (js ''b'') None None,
        example_row 3 (js ''c'') None (Some 3)] initial_state))
   \<and> map index (visible (sortTable no_numeric_strings (NumCol ManryoNissuValue)
       (sortTable no_numeric_strings (NumCol ManryoNissuValue)
       (loadData [example_row 1 (js ''a'') None (Some 5), example_row 2 (js ''b'') None None,
        example_row 3 (js ''c'') None (Some 3)] initial_state)))) = [2, 1, 3]
   \<and> map index (rev (visible (sortTable no_numeric_strings (NumCol ManryoNissuValue)
       (loadData [example_row 1 (js ''a'') None (Some 5), example_row 2 (js ''b'') None None,
        example_row 3 (js ''c'') None (Some 3)] initial_state)))) = [2, 1, 3]"
proof -
  let ?s = "loadData [example_row 1 (js ''a'') None (Some 5), example_row 2 (js ''b'') None None,
        example_row 3 (js ''c'') None (Some 3)] initial_state"
  have w: "well_typed_column (NumCol ManryoNissuValue) (visible ?s)"
    by (simp add: well_typed_column_def operand_def is_number_def example_eval)
  have h: "distinct_in_column no_numeric_strings (NumCol ManryoNissuValue) (visible ?s)"
    by (simp add: distinct_in_column_def column_key_def operand_def example_eval)
  have r: "map index (rev (visible (sortTable no_numeric_strings (NumCol ManryoNissuValue) ?s)))
      = [2, 1, 3]"
    by (simp add: example_eval)
  show ?thesis
    using w h r sort_twice_reverses_distinct[OF w, of no_numeric_strings] by simp
qed

subsection \<open>Ascending order with ties, and where the nulls go\<close>

lemma infinite_keys_last:
  "sorted_wrt (\<lambda>a b. \<not> number_less (K b) (K a)) xs \<Longrightarrow> (\<And>r. r \<in> set xs \<Longrightarrow> K r \<noteq> NaN) \<Longrightarrow>
     xs = filter (\<lambda>r. K r \<noteq> PosInf) xs @ filter (\<lambda>r. K r = PosInf) xs"
proof (induction xs)
  case Nil
  then show ?case by simp
next
  case (Cons x xs)
  then have ih: "xs = filter (\<lambda>r. K r \<noteq> PosInf) xs @ filter (\<lambda>r. K r = PosInf) xs" by simp
  show ?case
  proof (cases "K x = PosInf")
    case True
    have "\<forall>z\<in>set xs. K z = PosInf"
    proof
      fix z assume z: "z \<in> set xs"
      then have "\<not> number_less (K z) PosInf" using Cons.prems(1) True by auto
      moreover have "K z \<noteq> NaN" using Cons.prems(2) z by simp
      ultimately show "K z = PosInf" by (cases "K z") auto
    qed
    then have "filter (\<lambda>r. K r \<noteq> PosInf) xs = []" "filter (\<lambda>r. K r = PosInf) xs = xs"
      by (auto simp: filter_empty_conv filter_id_conv)
    with True show ?thesis by simp
  next
    case False
    then show ?thesis using ih by simp
  qed
qed

lemma operand_NumCol_is_number: "is_number (operand (NumCol k) r)"
  by (cases k)
    (auto simp: operand_def is_number_def null_to_infinity_def of_nullable_def split: option.splits)

lemma compared_number_not_NaN: "compared_number stn k r \<noteq> NaN"
  by (simp add: compared_number_def ToNumber_is_number operand_NumCol_is_number)

lemma compared_number_key:
  "projl (column_key stn (NumCol k) r) = compared_number stn k r"
  by (simp add: column_key_number operand_NumCol_is_number compared_number_def)

lemma comparefn_NumCol:
  "comparefn stn (NumCol k) asc = key_cmp total_less (compared_number stn k) asc"
  by (intro ext)
    (simp add: comparefn_numbers operand_NumCol_is_number compared_number_key key_cmp_def)

lemma compared_number_null:
  "(compared_number stn ManryoNissuValue r = PosInf) = (manryo_nissu_value r = None)"
  by (simp add: compared_number_def operand_def null_to_infinity_def of_nullable_def
      split: option.split)

lemma filterData_expired:
  "visible (filterData (js ''expired'') s) = filter expired_row (dataset s)"
  by (simp add: filterData_def js_def Let_def assign_filtered_visible) (simp add: dataset_def)

text \<open>
  C6, as stated, fails for the column of the days until expiry (the field the
  \<^verbatim>\<open>expired\<close> filter reads). Only the column of the numeric day count replaces
  \<^verbatim>\<open>null\<close> by \<^verbatim>\<open>Infinity\<close>; in any other column \<^verbatim>\<open>null\<close> is compared as 0,
  so an ascending sort puts a record with \<^verbatim>\<open>null\<close> before a record with 5 days left.
\<close>

theorem sort_null_days_until_expiry_counterexample:
  "sortAscending (sortTable no_numeric_strings (NumCol ManryoMadeNissu)
       (loadData [example_row 1 (js ''a'') (Some 5) None, example_row 2 (js ''b'') None None]
          initial_state))
   \<and> map manryo_made_nissu (visible (sortTable no_numeric_strings (NumCol ManryoMadeNissu)
       (loadData [example_row 1 (js ''a'') (Some 5) None, example_row 2 (js ''b'') None None]
          initial_state))) = [None, Some 5]"
  by (simp add: example_eval)

text \<open>
  C6, amended. The \<^verbatim>\<open>expired\<close> filter shows exactly the records of the Dataset
  whose days until expiry are not null and negative, so a record with \<^verbatim>\<open>null\<close> is
  never shown by it. In the column of the numeric day count (the field the
  \<^verbatim>\<open>skill1_limit\<close> filter reads) \<^verbatim>\<open>null\<close> is compared as \<^verbatim>\<open>Infinity\<close>: after an
  ascending sort on that column the visible sequence is in non-decreasing order and
  all records with \<^verbatim>\<open>null\<close> stand at the end.
\<close>

theorem expired_excludes_null_numeric_sort_nulls_last:
  "(r \<in> set (visible (filterData (js ''expired'') s)) \<longleftrightarrow>
      r \<in> set (dataset s) \<and> manryo_made_nissu r \<noteq> None \<and> the (manryo_made_nissu r) < 0)
   \<and> (sortAscending (sortTable stn (NumCol ManryoNissuValue) s) \<longrightarrow>
        sorted_wrt (\<lambda>a b. \<not> number_less (compared_number stn ManryoNissuValue b)
                                         (compared_number stn ManryoNissuValue a))
          (visible (sortTable stn (NumCol ManryoNissuValue) s))
        \<and> visible (sortTable stn (NumCol ManryoNissuValue) s) =
            filter (\<lambda>r. manryo_nissu_value r \<noteq> None)
              (visible (sortTable stn (NumCol ManryoNissuValue) s))
            @ filter (\<lambda>r. manryo_nissu_value r = None)
              (visible (sortTable stn (NumCol ManryoNissuValue) s)))
   \<and> compared_number stn ManryoNissuValue r =
        (case manryo_nissu_value r of None \<Rightarrow> PosInf | Some d \<Rightarrow> Fin (of_int d))"
proof -
  let ?c = "NumCol ManryoNissuValue"
  let ?K = "compared_number stn ManryoNissuValue"
  have e: "(r \<in> set (visible (filterData (js ''expired'') s)) \<longleftrightarrow>
      r \<in> set (dataset s) \<and> manryo_made_nissu r \<noteq> None \<and> the (manryo_made_nissu r) < 0)"
    by (auto simp: filterData_expired expired_row_def split: option.splits)
  have k: "?K r = (case manryo_nissu_value r of None \<Rightarrow> PosInf | Some d \<Rightarrow> Fin (of_int d))"
    by (simp add: compared_number_def operand_def null_to_infinity_def of_nullable_def
        split: option.split)
  have tl: "(\<lambda>a b. \<not> total_less (?K b) (?K a)) = (\<lambda>a b. \<not> number_less (?K b) (?K a))"
    by (intro ext) (simp add: total_less_number_less compared_number_not_NaN)
  have srt: "sorted_wrt (\<lambda>a b. \<not> number_less (?K b) (?K a)) (visible (sortTable stn ?c s))"
    if "sortAscending (sortTable stn ?c s)"
    using that weakly_sorted_array_sort[OF strict_linear_total_less, of ?K "visible s"]
    by (simp add: sortTable_visible[of stn ?c s] comparefn_NumCol tl)
  have last: "visible (sortTable stn ?c s) =
            filter (\<lambda>r. manryo_nissu_value r \<noteq> None) (visible (sortTable stn ?c s))
            @ filter (\<lambda>r. manryo_nissu_value r = None) (visible (sortTable stn ?c s))"
    if "sortAscending (sortTable stn ?c s)"
    using infinite_keys_last[OF srt[OF that]] by (simp add: compared_number_null compared_number_not_NaN)
  show ?thesis using e k srt last by blast
qed

theorem expired_excludes_null_numeric_sort_nulls_last_witness:
  "sortAscending (sortTable no_numeric_strings (NumCol ManryoNissuValue)
       (loadData [example_row 1 (js ''a'') None None, example_row 2 (js ''b'') None (Some 7),
                  example_row 3 (js ''c'') None (Some 2)] initial_state))
   \<and> map manryo_nissu_value (visible (sortTable no_numeric_strings (NumCol ManryoNissuValue)
       (loadData [example_row 1 (js ''a'') None None, example_row 2 (js ''b'') None (Some 7),
                  example_row 3 (js ''c'') None (Some 2)] initial_state))) = [Some 2, Some 7, None]
   \<and> sorted_wrt (\<lambda>a b. \<not> number_less (compared_number no_numeric_strings ManryoNissuValue b)
                                         (compared_number no_numeric_strings ManryoNissuValue a))
       (visible (sortTable no_numeric_strings (NumCol ManryoNissuValue)
       (loadData [example_row 1 (js ''a'') None None, example_row 2 (js ''b'') None (Some 7),
                  example_row 3 (js ''c'') None (Some 2)] initial_state)))"
proof -
  let ?s = "loadData [example_row 1 (js ''a'') None None, example_row 2 (js ''b'') None (Some 7),
                  example_row 3 (js ''c'') None (Some 2)] initial_state"
  have h: "sortAscending (sortTable no_numeric_strings (NumCol ManryoNissuValue) ?s)"
    by (simp add: example_eval)
  have v: "map manryo_nissu_value (visible (sortTable no_numeric_strings (NumCol ManryoNissuValue) ?s))
      = [Some 2, Some 7, None]"
    by (simp add: example_eval)
  show ?thesis
    using h v
      expired_excludes_null_numeric_sort_nulls_last
        [of "example_row 1 (js ''a'') None None" ?s no_numeric_strings]
    by blast
qed

subsection \<open>Sorting through an alias\<close>

text \<open>
  What does hold of the Dataset under a sort: its records stay the same set, and its
  order is kept when the visible sequence is an array of its own.
\<close>

lemma sortTable_dataset_set: "set (dataset (sortTable stn c s)) = set (dataset s)"
  by (simp add: sortTable_def dataset_def Let_def set_array_sort)

lemma sortTable_dataset_unaliased:
  "filteredData s \<noteq> allData s \<Longrightarrow> dataset (sortTable stn c s) = dataset s"
  by (simp add: sortTable_def dataset_def Let_def)

text \<open>
  C2. After \<^verbatim>\<open>loadData\<close> (and after the \<^verbatim>\<open>all\<close> filter or an empty search)
  \<^verbatim>\<open>filteredData\<close> and \<^verbatim>\<open>allData\<close> refer to the same array, and
  \<^verbatim>\<open>sortTable\<close> sorts that array in place: the Dataset loaded in the order 1, 2 is
  in the order 2, 1 after one sort.
\<close>

theorem sort_reorders_dataset_when_aliased:
  "map index (dataset (loadData [example_row 1 (js ''a'') None (Some 5),
        example_row 2 (js ''b'') None (Some 3)] initial_state)) = [1, 2]
   \<and> map index (dataset (sortTable stn (NumCol ManryoNissuValue)
       (loadData [example_row 1 (js ''a'') None (Some 5),
          example_row 2 (js ''b'') None (Some 3)] initial_state))) = [2, 1]"
  by (simp add: example_eval)

subsection \<open>Named filters read the Dataset\<close>

lemma filterData_all: "visible (filterData (js ''all'') s) = dataset s"
  by (simp add: filterData_def visible_def dataset_def Let_def)

lemma filterData_dataset: "dataset (filterData f s) = dataset s"
  by (simp add: filterData_def Let_def assign_filtered_dataset) (simp add: dataset_def)

lemma named_predicate_eqs:
  "named_predicate (js ''all'') = (\<lambda>r. True)"
  "named_predicate (js ''deadline_passed'') = deadline_passed_row"
  "named_predicate (js ''expired'') = expired_row"
  "named_predicate (js ''30days'') = level_row (js ''level1'')"
  "named_predicate (js ''60days'') = level_row (js ''level2'')"
  "named_predicate (js ''90days'') = level_row (js ''level3'')"
  "named_predicate (js ''skill1_limit'') = skill1_limit_row"
  by (rule ext, simp add: named_predicate_def js_def level_row_def)+

lemma filterData_named:
  assumes "f \<in> set named_filters"
  shows "visible (filterData f s) = filter (named_predicate f) (dataset s)"
proof -
  have d: "\<And>g. dataset (s\<lparr>currentFilter := g\<rparr>) = dataset s" by (simp add: dataset_def)
  have v: "\<And>g. visible (s\<lparr>currentFilter := g, filteredData := allData s\<rparr>) = dataset s"
    by (simp add: dataset_def visible_def)
  from assms consider "f = js ''all''" | "f = js ''deadline_passed''" | "f = js ''expired''"
    | "f = js ''30days''" | "f = js ''60days''" | "f = js ''90days''" | "f = js ''skill1_limit''"
    by (auto simp: named_filters_def)
  then show ?thesis
  proof cases
    case 1
    then show ?thesis by (simp add: named_predicate_eqs filterData_def Let_def v)
  next
    case 2
    show ?thesis unfolding 2 named_predicate_eqs
      by (simp add: filterData_def Let_def assign_filtered_visible d) (simp add: js_def)
  next
    case 3
    show ?thesis unfolding 3 named_predicate_eqs
      by (simp add: filterData_def Let_def assign_filtered_visible d) (simp add: js_def)
  next
    case 4
    show ?thesis unfolding 4 named_predicate_eqs
      by (simp add: filterData_def Let_def assign_filtered_visible d) (simp add: js_def)
  next
    case 5
    show ?thesis unfolding 5 named_predicate_eqs
      by (simp add: filterData_def Let_def assign_filtered_visible d) (simp add: js_def)
  next
    case 6
    show ?thesis unfolding 6 named_predicate_eqs
      by (simp add: filterData_def Let_def assign_filtered_visible d) (simp add: js_def)
  next
    case 7
    show ?thesis unfolding 7 named_predicate_eqs
      by (simp add: filterData_def Let_def assign_filtered_visible d) (simp add: js_def)
  qed
qed

text \<open>
  C7. Each of the seven named filters shows the records of the full Dataset that
  satisfy its predicate, whatever filter was applied before; and applying
  \<^verbatim>\<open>all\<close>, then a named filter, then \<^verbatim>\<open>all\<close> again shows the Dataset itself, so
  the records shown have the same set of ids as the Dataset.
\<close>

theorem named_filters_apply_to_full_dataset:
  assumes "f \<in> set named_filters"
  shows "visible (filterData f s) = filter (named_predicate f) (dataset s)
       \<and> visible (filterData f (filterData g s)) = visible (filterData f s)
       \<and> visible (filterData (js ''all'') (filterData f (filterData (js ''all'') s))) = dataset s
       \<and> index ` set (visible (filterData (js ''all'') (filterData f (filterData (js ''all'') s))))
           = index ` set (dataset s)"
  using filterData_named[OF assms] by (simp add: filterData_all filterData_dataset)

theorem named_filters_apply_to_full_dataset_witness:
  "js ''expired'' \<in> set named_filters
   \<and> map index (visible (filterData (js ''expired'') (filterData (js ''skill1_limit'')
         (loadData [example_row 1 (js ''a'') (Some (- 2)) None,
            example_row 2 (js ''b'') (Some 4) (Some 1700)] initial_state)))) = [1]
   \<and> map index (visible (filterData (js ''all'') (filterData (js ''expired'') (filterData (js ''all'')
         (loadData [example_row 1 (js ''a'') (Some (- 2)) None,
            example_row 2 (js ''b'') (Some 4) (Some 1700)] initial_state))))) = [1, 2]"
proof -
  let ?s = "loadData [example_row 1 (js ''a'') (Some (- 2)) None,
            example_row 2 (js ''b'') (Some 4) (Some 1700)] initial_state"
  have h: "js ''expired'' \<in> set named_filters" by (simp add: named_filters_def)
  have d: "dataset ?s = [example_row 1 (js ''a'') (Some (- 2)) None,
            example_row 2 (js ''b'') (Some 4) (Some 1700)]"
    by (simp add: loadData_def dataset_def Let_def)
  have e: "map index (filter (named_predicate (js ''expired'')) (dataset ?s)) = [1]"
    unfolding d by (simp add: named_predicate_def js_def expired_row_def example_row_def)
  have i: "map index (dataset ?s) = [1, 2]" unfolding d by (simp add: example_row_def)
  show ?thesis
    using h e i named_filters_apply_to_full_dataset[OF h, of "filterData (js ''skill1_limit'') ?s"]
      named_filters_apply_to_full_dataset[OF h, of ?s "js ''skill1_limit''"]
    by (simp add: filterData_dataset)
qed

subsection \<open>Search\<close>

lemma lowered_includes_Inr:
  "(lowered_includes toLowerCase q v = Inr t) = (\<exists>x. v = Str x \<and> t = js_includes (toLowerCase x) q)"
  by (cases v) (auto simp: lowered_includes_def)

lemma lowered_includes_Inl:
  "(lowered_includes toLowerCase q v = Inl e) = (\<not> is_string v \<and> e = TypeError)"
  by (cases v) (auto simp: lowered_includes_def is_string_def)

lemma or_else_Inr:
  "(or_else a b = Inr t) = ((a = Inr True \<and> t) \<or> (a = Inr False \<and> b = Inr t))"
  by (cases a) (auto simp: or_else_def)

lemma or_else_Inl:
  "(or_else a b = Inl e) = (a = Inl e \<or> (a = Inr False \<and> b = Inl e))"
  by (cases a) (auto simp: or_else_def)

text \<open>
  When the callback returns, it returns whether one of the five fields is a string
  that includes the text after lower-casing.
\<close>

lemma search_match_Inr:
  assumes "search_match toLowerCase q r = Inr t"
  shows "t = ((\<exists>x. tantosha_code r = Str x \<and> js_includes (toLowerCase x) q) \<or>
              (\<exists>x. shimei1 r = Str x \<and> js_includes (toLowerCase x) q) \<or>
              (\<exists>x. shimei2 r = Str x \<and> js_includes (toLowerCase x) q) \<or>
              (\<exists>x. zairyu_shikaku r = Str x \<and> js_includes (toLowerCase x) q) \<or>
              (\<exists>x. kokuseki r = Str x \<and> js_includes (toLowerCase x) q))"
  using assms unfolding search_match_def or_else_Inr lowered_includes_Inr by auto

lemma search_match_Inl: "search_match toLowerCase q r = Inl e \<Longrightarrow> e = TypeError"
  unfolding search_match_def or_else_Inl lowered_includes_Inl by auto

lemma search_match_strings:
  assumes "is_string (tantosha_code r)" "is_string (shimei1 r)" "is_string (shimei2 r)"
    "is_string (zairyu_shikaku r)" "is_string (kokuseki r)"
  shows "\<exists>t. search_match toLowerCase q r = Inr t"
proof (cases "search_match toLowerCase q r")
  case (Inl e)
  then show ?thesis
    using assms unfolding search_match_def or_else_Inl lowered_includes_Inl by auto
next
  case (Inr t)
  then show ?thesis by blast
qed

lemma search_match_first_field:
  "\<not> is_string (tantosha_code r) \<Longrightarrow> search_match toLowerCase q r = Inl TypeError"
  by (simp add: search_match_def or_else_Inl lowered_includes_Inl)

lemma array_filter_Inr:
  "array_filter p xs = Inr ys \<Longrightarrow>
     ys = filter (\<lambda>x. p x = Inr True) xs \<and> (\<forall>x\<in>set xs. \<exists>t. p x = Inr t)"
  by (induction xs arbitrary: ys) (auto split: sum.splits if_splits)

lemma array_filter_Inl:
  "array_filter p xs = Inl e \<Longrightarrow> \<exists>x\<in>set xs. p x = Inl e"
  by (induction xs) (auto split: sum.splits)

lemmas search_eval = searchData_def search_match_def or_else_def lowered_includes_def trim_def
  trim_start_def is_white_space_def ascii_toLowerCase_def assign_filtered_def filterData_def
  expired_row_def js_def

text \<open>
  C4, as stated, fails: the search filters \<^verbatim>\<open>allData\<close>, not the output of the active
  named filter. With the \<^verbatim>\<open>expired\<close> filter active only record 1 is shown; searching
  for \<^verbatim>\<open>Bob\<close> then shows record 2, which the active filter had excluded.
\<close>

theorem search_ignores_active_filter_counterexample:
  "map index (visible (filterData (js ''expired'')
       (loadData [example_row 1 (js ''ann'') (Some (- 2)) None,
                  example_row 2 (js ''bob'') (Some 4) None] initial_state))) = [1]
   \<and> fst (searchData ascii_toLowerCase (js ''Bob'') (filterData (js ''expired'')
       (loadData [example_row 1 (js ''ann'') (Some (- 2)) None,
                  example_row 2 (js ''bob'') (Some 4) None] initial_state))) = None
   \<and> map index (visible (snd (searchData ascii_toLowerCase (js ''Bob'') (filterData (js ''expired'')
       (loadData [example_row 1 (js ''ann'') (Some (- 2)) None,
                  example_row 2 (js ''bob'') (Some 4) None] initial_state))))) = [2]
   \<and> \<not> set (visible (snd (searchData ascii_toLowerCase (js ''Bob'') (filterData (js ''expired'')
       (loadData [example_row 1 (js ''ann'') (Some (- 2)) None,
                  example_row 2 (js ''bob'') (Some 4) None] initial_state)))))
        \<subseteq> set (visible (filterData (js ''expired'')
       (loadData [example_row 1 (js ''ann'') (Some (- 2)) None,
                  example_row 2 (js ''bob'') (Some 4) None] initial_state)))"
  by (simp add: example_eval search_eval)

text \<open>
  C4, amended. The search is applied to the full Dataset and replaces the output of
  the active named filter. When the callback of the search does not throw, the visible
  sequence afterwards is the sequence of the Dataset's records in which one of the
  person code, the two name lines, the status category and the nationality is a
  string that, lower-cased, includes the trimmed, lower-cased text (the whole Dataset
  when that text is empty), whatever was visible before. The callback does not throw
  when the five fields of every record are strings. Otherwise it may throw
  \<^verbatim>\<open>TypeError\<close>, and does so when the text is not empty and the person code of
  some record is not a string; a search that throws leaves the whole state, and so the
  visible sequence, as it was. The Dataset and the name of the active filter are never
  changed.
\<close>

theorem search_reads_full_dataset:
  "dataset (snd (searchData toLowerCase input s)) = dataset s
   \<and> currentFilter (snd (searchData toLowerCase input s)) = currentFilter s
   \<and> (fst (searchData toLowerCase input s) = None \<longrightarrow>
        visible (snd (searchData toLowerCase input s)) =
          (if trim (toLowerCase input) = [] then dataset s
           else filter
             (\<lambda>r. (\<exists>x. tantosha_code r = Str x \<and>
                         js_includes (toLowerCase x) (trim (toLowerCase input))) \<or>
                   (\<exists>x. shimei1 r = Str x \<and>
                         js_includes (toLowerCase x) (trim (toLowerCase input))) \<or>
                   (\<exists>x. shimei2 r = Str x \<and>
                         js_includes (toLowerCase x) (trim (toLowerCase input))) \<or>
                   (\<exists>x. zairyu_shikaku r = Str x \<and>
                         js_includes (toLowerCase x) (trim (toLowerCase input))) \<or>
                   (\<exists>x. kokuseki r = Str x \<and>
                         js_includes (toLowerCase x) (trim (toLowerCase input))))
             (dataset s)))
   \<and> (fst (searchData toLowerCase input s) \<noteq> None \<longrightarrow>
        fst (searchData toLowerCase input s) = Some TypeError \<and>
        snd (searchData toLowerCase input s) = s)
   \<and> ((\<forall>r\<in>set (dataset s). is_string (tantosha_code r) \<and> is_string (shimei1 r) \<and>
          is_string (shimei2 r) \<and> is_string (zairyu_shikaku r) \<and> is_string (kokuseki r))
        \<longrightarrow> fst (searchData toLowerCase input s) = None)
   \<and> (trim (toLowerCase input) \<noteq> [] \<and> (\<exists>r\<in>set (dataset s). \<not> is_string (tantosha_code r))
        \<longrightarrow> fst (searchData toLowerCase input s) = Some TypeError)"
proof -
  let ?q = "trim (toLowerCase input)"
  let ?p = "search_match toLowerCase ?q"
  let ?P = "\<lambda>r. (\<exists>x. tantosha_code r = Str x \<and> js_includes (toLowerCase x) ?q) \<or>
                (\<exists>x. shimei1 r = Str x \<and> js_includes (toLowerCase x) ?q) \<or>
                (\<exists>x. shimei2 r = Str x \<and> js_includes (toLowerCase x) ?q) \<or>
                (\<exists>x. zairyu_shikaku r = Str x \<and> js_includes (toLowerCase x) ?q) \<or>
                (\<exists>x. kokuseki r = Str x \<and> js_includes (toLowerCase x) ?q)"
  let ?res = "searchData toLowerCase input s"
  show ?thesis
  proof (cases "?q = []")
    case True
    then have r: "?res = (None, s\<lparr>filteredData := allData s\<rparr>)"
      by (simp add: searchData_def Let_def)
    show ?thesis
      unfolding r using True by (simp add: dataset_def visible_def)
  next
    case False
    show ?thesis
    proof (cases "array_filter ?p (dataset s)")
      case (Inl e)
      then obtain x where x: "x \<in> set (dataset s)" "?p x = Inl e"
        using array_filter_Inl by blast
      then have e: "e = TypeError" using search_match_Inl by blast
      have r: "?res = (Some TypeError, s)"
        using Inl False e by (simp add: searchData_def Let_def dataset_def)
      have "\<not> (\<forall>r\<in>set (dataset s). is_string (tantosha_code r) \<and> is_string (shimei1 r) \<and>
          is_string (shimei2 r) \<and> is_string (zairyu_shikaku r) \<and> is_string (kokuseki r))"
        using x search_match_strings[of x toLowerCase ?q] by auto
      then show ?thesis unfolding r by simp
    next
      case (Inr found)
      then have f: "found = filter (\<lambda>x. ?p x = Inr True) (dataset s)"
        and a: "\<forall>x\<in>set (dataset s). \<exists>t. ?p x = Inr t"
        using array_filter_Inr by blast+
      have "filter (\<lambda>x. ?p x = Inr True) (dataset s) = filter ?P (dataset s)"
      proof (rule filter_cong[OF refl])
        fix x assume "x \<in> set (dataset s)"
        then obtain t where t: "?p x = Inr t" using a by blast
        from search_match_Inr[OF t] t show "(?p x = Inr True) = ?P x" by simp
      qed
      then have f': "found = filter ?P (dataset s)" using f by simp
      have r: "?res = (None, (let a = new_array s
                        in s\<lparr>store := (store s)(a := found), filteredData := a\<rparr>))"
        using Inr False by (simp add: searchData_def Let_def dataset_def)
      have nt: "\<not> (\<exists>r\<in>set (dataset s). \<not> is_string (tantosha_code r))"
      proof
        assume "\<exists>r\<in>set (dataset s). \<not> is_string (tantosha_code r)"
        then obtain y where "y \<in> set (dataset s)" "?p y = Inl TypeError"
          using search_match_first_field by blast
        then show False using a by auto
      qed
      show ?thesis
        unfolding r using False nt f'
        by (simp add: Let_def dataset_def visible_def new_array_fresh)
    qed
  qed
qed

theorem search_reads_full_dataset_witness:
  "list_all (\<lambda>r. is_string (tantosha_code r) \<and> is_string (shimei1 r) \<and> is_string (shimei2 r) \<and>
        is_string (zairyu_shikaku r) \<and> is_string (kokuseki r))
     (dataset (loadData [example_row 1 (js ''ann'') None None,
        example_row 2 (js ''bob'') None None] initial_state))
   \<and> fst (searchData ascii_toLowerCase (js ''Bob'') (loadData [example_row 1 (js ''ann'') None None,
        example_row 2 (js ''bob'') None None] initial_state)) = None
   \<and> map index (visible (snd (searchData ascii_toLowerCase (js ''Bob'')
        (loadData [example_row 1 (js ''ann'') None None,
                   example_row 2 (js ''bob'') None None] initial_state)))) = [2]
   \<and> trim (ascii_toLowerCase (js ''Bob'')) \<noteq> []
   \<and> (\<exists>r\<in>set (dataset (loadData [example_row 1 (js ''ann'') None None,
        (example_row 2 (js ''bob'') None None)\<lparr>tantosha_code := Null\<rparr>] initial_state)).
        \<not> is_string (tantosha_code r))
   \<and> searchData ascii_toLowerCase (js ''Bob'') (loadData [example_row 1 (js ''ann'') None None,
        (example_row 2 (js ''bob'') None None)\<lparr>tantosha_code := Null\<rparr>] initial_state)
       = (Some TypeError, loadData [example_row 1 (js ''ann'') None None,
        (example_row 2 (js ''bob'') None None)\<lparr>tantosha_code := Null\<rparr>] initial_state)"
proof -
  let ?s = "loadData [example_row 1 (js ''ann'') None None,
        example_row 2 (js ''bob'') None None] initial_state"
  let ?t = "loadData [example_row 1 (js ''ann'') None None,
        (example_row 2 (js ''bob'') None None)\<lparr>tantosha_code := Null\<rparr>] initial_state"
  have h1: "\<forall>r\<in>set (dataset ?s).
      is_string (tantosha_code r) \<and> is_string (shimei1 r) \<and> is_string (shimei2 r) \<and>
      is_string (zairyu_shikaku r) \<and> is_string (kokuseki r)"
    by (simp add: example_eval is_string_def)
  have v: "map index (visible (snd (searchData ascii_toLowerCase (js ''Bob'') ?s))) = [2]"
    by (simp add: example_eval search_eval)
  have h2: "trim (ascii_toLowerCase (js ''Bob'')) \<noteq> []"
    by (simp add: search_eval)
  have h3: "\<exists>r\<in>set (dataset ?t). \<not> is_string (tantosha_code r)"
    by (simp add: example_eval is_string_def)
  have 1: "fst (searchData ascii_toLowerCase (js ''Bob'') ?s) = None"
    using h1 search_reads_full_dataset[of ascii_toLowerCase "js ''Bob''" ?s] by blast
  have 2: "fst (searchData ascii_toLowerCase (js ''Bob'') ?t) = Some TypeError
      \<and> snd (searchData ascii_toLowerCase (js ''Bob'') ?t) = ?t"
    using h2 h3 search_reads_full_dataset[of ascii_toLowerCase "js ''Bob''" ?t] by blast
  then have 3: "searchData ascii_toLowerCase (js ''Bob'') ?t = (Some TypeError, ?t)"
    by (simp add: prod_eq_iff)
  from h1 have h1': "list_all (\<lambda>r. is_string (tantosha_code r) \<and> is_string (shimei1 r) \<and>
        is_string (shimei2 r) \<and> is_string (zairyu_shikaku r) \<and> is_string (kokuseki r))
     (dataset ?s)"
    by (simp add: list_all_iff)
  show ?thesis using h1' 1 v h2 h3 3 by blast
qed

subsection \<open>Validation of the edit form\<close>

lemmas form_eval = handleFormSubmit_def example_form_def tier1_marker_def parseInt_def
  digit_value_def trim_start_def is_white_space_def js_def Let_def

text \<open>
  A submission is rejected exactly when the status category carries the marker and
  the field of the days already elapsed is empty, or \<^verbatim>\<open>parseInt\<close> of it is
  \<^verbatim>\<open>NaN\<close> or negative.
\<close>

lemma handleFormSubmit_rejects_iff:
  "(\<exists>e. handleFormSubmit editIndex inputs = Inl e) \<longleftrightarrow>
     tier1_marker (in_zairyu_shikaku inputs) \<and>
     (in_ki_manryo_days inputs = [] \<or> parseInt (in_ki_manryo_days inputs) = None \<or>
      the (parseInt (in_ki_manryo_days inputs)) < 0)"
  by (auto simp: handleFormSubmit_def Let_def split: option.splits)

text \<open>
  C3. With the marker in the status category (ASCII or full-width digit), the texts
  \<^verbatim>\<open>12abc\<close> and \<^verbatim>\<open>3.7\<close> in the field of the days already elapsed are not
  non-negative integers, yet the submission is not rejected: \<^verbatim>\<open>parseInt\<close> reads the
  leading digits and ignores the rest, and the request is sent with the text as
  entered. The empty field and \<^verbatim>\<open>-5\<close> are rejected.
\<close>

theorem form_submits_non_integer_days:
  "handleFormSubmit [] (example_form [0x7279, 0x5B9A, 0x6280, 0x80FD, 0x31, 0x53F7] (js ''12abc''))
     = Inr (AddRequest (example_form [0x7279, 0x5B9A, 0x6280, 0x80FD, 0x31, 0x53F7] (js ''12abc'')))
   \<and> handleFormSubmit [] (example_form [0x7279, 0x5B9A, 0x6280, 0x80FD, 0xFF11, 0x53F7] (js ''3.7''))
     = Inr (AddRequest (example_form [0x7279, 0x5B9A, 0x6280, 0x80FD, 0xFF11, 0x53F7] (js ''3.7'')))
   \<and> handleFormSubmit [] (example_form [0x7279, 0x5B9A, 0x6280, 0x80FD, 0x31, 0x53F7] [])
     = Inl DaysRequired
   \<and> handleFormSubmit [] (example_form [0x7279, 0x5B9A, 0x6280, 0x80FD, 0x31, 0x53F7] (js ''-5''))
     = Inl DaysNotNonNegative"
  by (simp add: form_eval)

subsection \<open>The unsaved-change tracker\<close>

lemmas tracker_eval = handleFormSubmit_success_def deleteRow_success_def
  exportProcessedData_success_def markUnsavedChanges_def resetUnsavedChanges_def
  tracker_state_def loadSummary_def loadData_call_def updateLastExportInfo_def
  beforeunload_prompts_def Let_def

text \<open>
  C8, as stated, fails: a summary whose export time is not before the change time
  does not always clear the tracker. The function that compares the two times returns
  at once on a page without the element that displays the last export. On such a page
  a record is added at time 1000 (the tracker is Dirty), then a summary arrives whose
  export time is 2000: the tracker is still Dirty.
\<close>

theorem summary_without_export_element_counterexample:
  "tracker_state (handleFormSubmit_success without_export_info example_date_parse None None 1000
       initial_state) = Dirty
   \<and> lastChangeTimestamp (handleFormSubmit_success without_export_info example_date_parse None None
       1000 initial_state) = Some 1000
   \<and> parseSummaryTimestamp example_date_parse (Str (js ''2024-05-01 10:00:00'')) = Inr (Some 2000)
   \<and> (1000::int) \<le> 2000
   \<and> tracker_state (loadSummary without_export_info example_date_parse
        (Some (Str (js ''2024-05-01 10:00:00'')))
        (handleFormSubmit_success without_export_info example_date_parse None None 1000
           initial_state)) = Dirty"
  by (simp add: tracker_eval without_export_info_def parseSummaryTimestamp_def initial_state_def
      example_date_parse_def js_def)

text \<open>
  C8, amended. The tracker has the two states Clean and Dirty. On a page that has the
  status bar (and, for the edit form, the modal), a successful add or update and a
  successful delete leave it Dirty with the time of the change recorded, and a
  successful export of the processed data leaves it Clean with no change time. A
  summary received while a non-zero change time is recorded clears the tracker (Clean,
  no change time) when the page has the elements for the file name, the total count
  and the last export and the export time parses to a time that is not before the
  change time; in every other case with a non-zero change time a Dirty tracker stays
  Dirty and keeps its change time. A failed summary request changes nothing. The page
  observes the state: it asks before unloading exactly when the tracker is Dirty.
\<close>

theorem unsaved_change_tracker:
  "(page StatusBar \<and> page EditModal \<longrightarrow>
      tracker_state (handleFormSubmit_success page date_parse data summary now s) = Dirty \<and>
      lastChangeTimestamp (handleFormSubmit_success page date_parse data summary now s) = Some now)
   \<and> (page StatusBar \<longrightarrow>
      tracker_state (deleteRow_success page date_parse data summary now s) = Dirty \<and>
      lastChangeTimestamp (deleteRow_success page date_parse data summary now s) = Some now)
   \<and> (page StatusBar \<longrightarrow>
      tracker_state (exportProcessedData_success page date_parse summary s) = Clean \<and>
      lastChangeTimestamp (exportProcessedData_success page date_parse summary s) = None)
   \<and> (lastChangeTimestamp s = Some changed \<and> changed \<noteq> 0 \<and>
       page FilenameLabel \<and> page TotalCount \<and> page LastExportInfo \<and>
       parseSummaryTimestamp date_parse last_exported_at = Inr (Some exported) \<and> changed \<le> exported
       \<longrightarrow> tracker_state (loadSummary page date_parse (Some last_exported_at) s) = Clean \<and>
           lastChangeTimestamp (loadSummary page date_parse (Some last_exported_at) s) = None)
   \<and> (tracker_state s = Dirty \<and> lastChangeTimestamp s = Some changed \<and> changed \<noteq> 0 \<and>
       \<not> (page FilenameLabel \<and> page TotalCount \<and> page LastExportInfo \<and>
          (\<exists>exported. parseSummaryTimestamp date_parse last_exported_at = Inr (Some exported) \<and>
             changed \<le> exported))
       \<longrightarrow> tracker_state (loadSummary page date_parse (Some last_exported_at) s) = Dirty \<and>
           lastChangeTimestamp (loadSummary page date_parse (Some last_exported_at) s)
             = Some changed)
   \<and> tracker_state (loadSummary page date_parse None s) = tracker_state s
   \<and> lastChangeTimestamp (loadSummary page date_parse None s) = lastChangeTimestamp s
   \<and> beforeunload_prompts s = (tracker_state s = Dirty)"
proof (intro conjI impI)
  show "beforeunload_prompts s = (tracker_state s = Dirty)"
    by (simp add: tracker_eval)
qed (auto simp: tracker_eval split: option.splits if_splits sum.splits)

theorem unsaved_change_tracker_witness:
  "dashboard StatusBar \<and> dashboard EditModal \<and> dashboard FilenameLabel \<and> dashboard TotalCount
   \<and> dashboard LastExportInfo
   \<and> tracker_state (handleFormSubmit_success dashboard example_date_parse None None 1000
        initial_state) = Dirty
   \<and> lastChangeTimestamp (handleFormSubmit_success dashboard example_date_parse None None 1000
        initial_state) = Some 1000
   \<and> (1000::int) \<noteq> 0
   \<and> parseSummaryTimestamp example_date_parse (Str (js ''2024-05-01 10:00:00'')) = Inr (Some 2000)
   \<and> (1000::int) \<le> 2000
   \<and> tracker_state (loadSummary dashboard example_date_parse (Some (Str (js ''2024-05-01 10:00:00'')))
        (handleFormSubmit_success dashboard example_date_parse None None 1000 initial_state)) = Clean
   \<and> parseSummaryTimestamp example_date_parse (Str (js ''2024-04-01 10:00:00'')) = Inr (Some 500)
   \<and> \<not> (1000::int) \<le> 500
   \<and> tracker_state (loadSummary dashboard example_date_parse (Some (Str (js ''2024-04-01 10:00:00'')))
        (handleFormSubmit_success dashboard example_date_parse None None 1000 initial_state)) = Dirty
   \<and> tracker_state (exportProcessedData_success dashboard example_date_parse None
        (handleFormSubmit_success dashboard example_date_parse None None 1000 initial_state)) = Clean"
proof -
  let ?s = "handleFormSubmit_success dashboard example_date_parse None None 1000 initial_state"
  have p: "dashboard StatusBar" "dashboard EditModal" "dashboard FilenameLabel"
    "dashboard TotalCount" "dashboard LastExportInfo"
    by (simp_all add: dashboard_def)
  have a: "tracker_state ?s = Dirty \<and> lastChangeTimestamp ?s = Some 1000"
    using p unsaved_change_tracker[where page = dashboard and date_parse = example_date_parse
        and data = None and summary = None and now = 1000 and s = initial_state]
    by blast
  have h2: "parseSummaryTimestamp example_date_parse (Str (js ''2024-05-01 10:00:00'')) = Inr (Some 2000)"
    by (simp add: parseSummaryTimestamp_def example_date_parse_def js_def)
  have h3: "parseSummaryTimestamp example_date_parse (Str (js ''2024-04-01 10:00:00'')) = Inr (Some 500)"
    by (simp add: parseSummaryTimestamp_def example_date_parse_def js_def)
  have b: "tracker_state (loadSummary dashboard example_date_parse
        (Some (Str (js ''2024-05-01 10:00:00''))) ?s) = Clean"
    using p a h2 unsaved_change_tracker[where page = dashboard and date_parse = example_date_parse
        and s = ?s and changed = 1000 and exported = 2000
        and last_exported_at = "Str (js ''2024-05-01 10:00:00'')"]
    by simp
  have c: "tracker_state (loadSummary dashboard example_date_parse
        (Some (Str (js ''2024-04-01 10:00:00''))) ?s) = Dirty"
    using p a h3 unsaved_change_tracker[where page = dashboard and date_parse = example_date_parse
        and s = ?s and changed = 1000
        and last_exported_at = "Str (js ''2024-04-01 10:00:00'')"]
    by simp
  have d: "tracker_state (exportProcessedData_success dashboard example_date_parse None ?s) = Clean"
    using p unsaved_change_tracker[where page = dashboard and date_parse = example_date_parse
        and summary = None and s = ?s]
    by blast
  show ?thesis using p a h2 h3 b c d by simp
qed

subsection \<open>The download name\<close>

lemma continuation_octets_numeral:
  "continuation_octets 1 s =
     (case escape_octet s of None \<Rightarrow> None | Some (b, rest) \<Rightarrow> Some ([b], rest))"
  "continuation_octets 2 s =
     (case escape_octet s of
        None \<Rightarrow> None
      | Some (b, rest) \<Rightarrow>
          (case continuation_octets 1 rest of
             None \<Rightarrow> None
           | Some (bs, rest') \<Rightarrow> Some (b # bs, rest')))"
  "continuation_octets 3 s =
     (case escape_octet s of
        None \<Rightarrow> None
      | Some (b, rest) \<Rightarrow>
          (case continuation_octets 2 rest of
             None \<Rightarrow> None
           | Some (bs, rest') \<Rightarrow> Some (b # bs, rest')))"
  by (simp_all add: numeral_eq_Suc split: option.split)

lemmas decode_eval = decodeURIComponent.simps decode_step_def escape_octet_def hex_value_def
  digit_value_def leading_ones_def utf8_code_point_def is_continuation_def utf16_encode_def
  continuation_octets_numeral js_def Let_def

lemmas extract_eval = extractFilenameFromDisposition_def try_catch_def match_here_def encoded_alternative_def
  plain_alternative_def canonicalize_def

text \<open>
  C9. The encoded form alone is decoded (U+5728 U+7559 and \<^verbatim>\<open>.xlsx\<close>), the plain
  form alone loses its quotes, and a header with the encoded form first yields the
  decoded name. A header with the plain form first, as in
  \<^verbatim>\<open>attachment; filename="plain.xlsx"; filename*=UTF-8''...\<close>, yields the plain
  name: the expression matches at the leftmost position, which is the plain
  parameter, and group 1 stays undefined, so the encoded form is not preferred.
\<close>

theorem filename_plain_first_wins:
  "extractFilenameFromDisposition
     (js ''filename*=UTF-8'' @ [0x27, 0x27] @ js ''%E5%9C%A8%E7%95%99.xlsx'')
     = Inr (Some ([0x5728, 0x7559] @ js ''.xlsx''))
   \<and> extractFilenameFromDisposition (js ''filename='' @ [0x22] @ js ''plain.xlsx'' @ [0x22])
     = Inr (Some (js ''plain.xlsx''))
   \<and> extractFilenameFromDisposition
       (js ''attachment; filename*=UTF-8'' @ [0x27, 0x27] @ js ''%E5%9C%A8%E7%95%99.xlsx; filename=''
        @ [0x22] @ js ''plain.xlsx'' @ [0x22])
     = Inr (Some ([0x5728, 0x7559] @ js ''.xlsx''))
   \<and> extractFilenameFromDisposition
       (js ''attachment; filename='' @ [0x22] @ js ''plain.xlsx'' @ [0x22]
        @ js ''; filename*=UTF-8'' @ [0x27, 0x27] @ js ''%E5%9C%A8%E7%95%99.xlsx'')
     = Inr (Some (js ''plain.xlsx''))"
  by (simp add: extract_eval decode_eval)

text \<open>A match needs the word \<^verbatim>\<open>filename\<close>, in any case of its letters.\<close>

lemma starts_with_append: "starts_with s (p @ q) \<Longrightarrow> starts_with s p"
  by (induction s p rule: starts_with.induct) auto

lemma match_literal_starts_with:
  "match_literal p s = Some r \<Longrightarrow> starts_with (map canonicalize s) (map canonicalize p)"
  by (induction p s rule: match_literal.induct) (auto split: if_splits)

lemma match_here_filename:
  assumes "match_here s \<noteq> None"
  shows "starts_with (map canonicalize s) (js ''FILENAME'')"
proof -
  have "(\<exists>r. match_literal (js ''filename*=UTF-8'' @ [0x27, 0x27]) s = Some r) \<or>
        (\<exists>r. match_literal (js ''filename='') s = Some r)"
    using assms
    by (auto simp: match_here_def encoded_alternative_def plain_alternative_def
        split: option.splits)
  then have "starts_with (map canonicalize s) (js ''FILENAME'' @ js ''*=UTF-8'' @ [0x27, 0x27]) \<or>
             starts_with (map canonicalize s) (js ''FILENAME'' @ js ''='')"
  proof
    assume "\<exists>r. match_literal (js ''filename*=UTF-8'' @ [0x27, 0x27]) s = Some r"
    then obtain r where "match_literal (js ''filename*=UTF-8'' @ [0x27, 0x27]) s = Some r" ..
    from match_literal_starts_with[OF this] show ?thesis
      by (simp add: js_def canonicalize_def)
  next
    assume "\<exists>r. match_literal (js ''filename='') s = Some r"
    then obtain r where "match_literal (js ''filename='') s = Some r" ..
    from match_literal_starts_with[OF this] show ?thesis
      by (simp add: js_def canonicalize_def)
  qed
  then show ?thesis using starts_with_append by blast
qed

lemma exec_needs_filename:
  "filenameRegex_exec d \<noteq> None \<Longrightarrow> js_includes (map canonicalize d) (js ''FILENAME'')"
proof (induction d)
  case Nil
  then have "match_here [] \<noteq> None" by simp
  from match_here_filename[OF this] show ?case by (simp add: js_def)
next
  case (Cons c cs)
  show ?case
  proof (cases "match_here (c # cs)")
    case None
    with Cons show ?thesis by simp
  next
    case (Some m)
    then have "match_here (c # cs) \<noteq> None" by simp
    from match_here_filename[OF this] show ?thesis by simp
  qed
qed

text \<open>The matcher and the description of where the expression can match agree.\<close>

lemma match_literal_Some:
  "(match_literal p s = Some rest) =
     (\<exists>name. s = name @ rest \<and> map canonicalize name = map canonicalize p)"
proof (induction p s rule: match_literal.induct)
  case (1 s)
  then show ?case by auto
next
  case (2 p ps)
  then show ?case by auto
next
  case (3 p ps c cs)
  show ?case
  proof
    assume "match_literal (p # ps) (c # cs) = Some rest"
    then have c: "canonicalize c = canonicalize p" and m: "match_literal ps cs = Some rest"
      by (auto split: if_splits)
    from 3[OF c] m obtain name where "cs = name @ rest" "map canonicalize name = map canonicalize ps"
      by auto
    with c have "c # cs = (c # name) @ rest \<and> map canonicalize (c # name) = map canonicalize (p # ps)"
      by simp
    then show "\<exists>name. c # cs = name @ rest \<and> map canonicalize name = map canonicalize (p # ps)"
      by blast
  next
    assume "\<exists>name. c # cs = name @ rest \<and> map canonicalize name = map canonicalize (p # ps)"
    then obtain name where n: "c # cs = name @ rest" "map canonicalize name = map canonicalize (p # ps)"
      by blast
    then obtain n ns where nn: "name = n # ns" by (cases name) auto
    with n have c: "canonicalize c = canonicalize p" and
      r: "cs = ns @ rest" "map canonicalize ns = map canonicalize ps"
      by auto
    from 3[OF c] r have "match_literal ps cs = Some rest" by auto
    with c show "match_literal (p # ps) (c # cs) = Some rest" by simp
  qed
qed

lemma takeWhile_nonempty: "(takeWhile P xs \<noteq> []) = (\<exists>c rest. xs = c # rest \<and> P c)"
  by (cases xs) auto

lemma encoded_alternative_iff: "(encoded_alternative s \<noteq> None) = encoded_text s"
proof
  assume "encoded_alternative s \<noteq> None"
  then obtain rest where m: "match_literal (js ''filename*=UTF-8'' @ [0x27, 0x27]) s = Some rest"
    and t: "takeWhile (\<lambda>c. c \<noteq> 0x3B) rest \<noteq> []"
    by (auto simp: encoded_alternative_def Let_def split: option.splits if_splits)
  from m obtain name where n: "s = name @ rest"
    "map canonicalize name = map canonicalize (js ''filename*=UTF-8'' @ [0x27, 0x27])"
    unfolding match_literal_Some by blast
  from t obtain c rest' where "rest = c # rest'" "c \<noteq> 0x3B"
    unfolding takeWhile_nonempty by blast
  with n show "encoded_text s" unfolding encoded_text_def by blast
next
  assume "encoded_text s"
  then obtain name c rest where n: "s = name @ c # rest"
    "map canonicalize name = map canonicalize (js ''filename*=UTF-8'' @ [0x27, 0x27])" "c \<noteq> 0x3B"
    unfolding encoded_text_def by blast
  then have m: "match_literal (js ''filename*=UTF-8'' @ [0x27, 0x27]) s = Some (c # rest)"
    unfolding match_literal_Some by blast
  show "encoded_alternative s \<noteq> None"
    using n(3) by (simp add: encoded_alternative_def m Let_def)
qed

lemma plain_alternative_iff: "(plain_alternative s \<noteq> None) = plain_text s"
proof
  assume a: "plain_alternative s \<noteq> None"
  then obtain rest where m: "match_literal (js ''filename='') s = Some rest"
    by (auto simp: plain_alternative_def split: option.splits)
  from m obtain name where n: "s = name @ rest"
    "map canonicalize name = map canonicalize (js ''filename='')"
    unfolding match_literal_Some by blast
  let ?P = "\<lambda>c::nat. c \<noteq> 0x22 \<and> c \<noteq> 0x3B"
  from a m have "(rest \<noteq> [] \<and> hd rest = 0x22 \<and> takeWhile ?P (tl rest) \<noteq> []) \<or> takeWhile ?P rest \<noteq> []"
    by (auto simp: plain_alternative_def Let_def split: if_splits)
  then show "plain_text s"
  proof
    assume q: "rest \<noteq> [] \<and> hd rest = 0x22 \<and> takeWhile ?P (tl rest) \<noteq> []"
    then obtain c rest' where "tl rest = c # rest'" "?P c"
      unfolding takeWhile_nonempty by blast
    with q have "rest = 0x22 # c # rest'" by (cases rest) auto
    with n \<open>?P c\<close> show ?thesis unfolding plain_text_def by blast
  next
    assume "takeWhile ?P rest \<noteq> []"
    then obtain c rest' where "rest = c # rest'" "?P c"
      unfolding takeWhile_nonempty by blast
    with n show ?thesis unfolding plain_text_def by blast
  qed
next
  assume "plain_text s"
  then obtain name c rest where n: "map canonicalize name = map canonicalize (js ''filename='')"
    "c \<noteq> 0x22" "c \<noteq> 0x3B" and s: "s = name @ c # rest \<or> s = name @ 0x22 # c # rest"
    unfolding plain_text_def by blast
  from s show "plain_alternative s \<noteq> None"
  proof
    assume "s = name @ c # rest"
    with n have m: "match_literal (js ''filename='') s = Some (c # rest)"
      unfolding match_literal_Some by blast
    show ?thesis using n(2,3) by (simp add: plain_alternative_def m Let_def)
  next
    assume "s = name @ 0x22 # c # rest"
    with n have m: "match_literal (js ''filename='') s = Some (0x22 # c # rest)"
      unfolding match_literal_Some by blast
    show ?thesis using n(2,3) by (simp add: plain_alternative_def m Let_def)
  qed
qed

lemma match_here_iff: "(match_here s \<noteq> None) = (encoded_text s \<or> plain_text s)"
  unfolding encoded_alternative_iff[symmetric] plain_alternative_iff[symmetric]
  by (auto simp: match_here_def split: option.splits)

lemma exec_iff: "(filenameRegex_exec d \<noteq> None) = filename_text_occurs d"
proof (induction d)
  case Nil
  show ?case
    using match_here_iff[of "[]"] by (auto simp: filename_text_occurs_def)
next
  case (Cons c cs)
  show ?case
  proof (cases "match_here (c # cs)")
    case (Some m)
    then have "encoded_text (c # cs) \<or> plain_text (c # cs)"
      using match_here_iff[of "c # cs"] by simp
    then have "filename_text_occurs (c # cs)"
      unfolding filename_text_occurs_def by (intro exI[of _ "[]"] exI[of _ "c # cs"]) simp
    with Some show ?thesis by simp
  next
    case None
    then have no: "\<not> (encoded_text (c # cs) \<or> plain_text (c # cs))"
      using match_here_iff[of "c # cs"] by simp
    have "filename_text_occurs (c # cs) = filename_text_occurs cs"
    proof
      assume "filename_text_occurs (c # cs)"
      then obtain before s where b: "c # cs = before @ s" "encoded_text s \<or> plain_text s"
        unfolding filename_text_occurs_def by blast
      with no have "before \<noteq> []" by (cases before) auto
      then obtain b' where "before = c # b'" "cs = b' @ s" using b(1) by (cases before) auto
      with b(2) show "filename_text_occurs cs" unfolding filename_text_occurs_def by blast
    next
      assume "filename_text_occurs cs"
      then obtain before s where "cs = before @ s" "encoded_text s \<or> plain_text s"
        unfolding filename_text_occurs_def by blast
      then have "c # cs = (c # before) @ s \<and> (encoded_text s \<or> plain_text s)" by simp
      then show "filename_text_occurs (c # cs)" unfolding filename_text_occurs_def by blast
    qed
    with None Cons show ?thesis by simp
  qed
qed

lemma match_here_groups:
  assumes "match_here s = Some (encoded, plain)"
  shows "(encoded \<noteq> None \<and> encoded \<noteq> Some [] \<and> plain = None) \<or>
         (encoded = None \<and> plain \<noteq> None)"
proof (cases "encoded_alternative s")
  case None
  note e = this
  show ?thesis
  proof (cases "plain_alternative s")
    case None
    with e assms show ?thesis by (simp add: match_here_def)
  next
    case (Some p)
    with e assms have "encoded = None" "plain = Some p" by (simp_all add: match_here_def)
    then show ?thesis by simp
  qed
next
  case (Some x)
  then have "x \<noteq> []"
    by (auto simp: encoded_alternative_def Let_def split: option.splits if_splits)
  moreover from Some assms have "encoded = Some x" "plain = None"
    by (simp_all add: match_here_def)
  ultimately show ?thesis by simp
qed

lemma exec_groups:
  "filenameRegex_exec d = Some (encoded, plain) \<Longrightarrow>
     (encoded \<noteq> None \<and> encoded \<noteq> Some [] \<and> plain = None) \<or>
     (encoded = None \<and> plain \<noteq> None)"
proof (induction d)
  case Nil
  then show ?case using match_here_groups[of "[]"] by simp
next
  case (Cons c cs)
  then show ?case
    using match_here_groups[of "c # cs"]
    by (cases "match_here (c # cs)") auto
qed

text \<open>
  C10, as stated, fails: a header without a filename parameter does not always yield
  \<^verbatim>\<open>null\<close>. The expression is not anchored at the start of a parameter name, so in
  \<^verbatim>\<open>attachment; myfilename=x.txt\<close>, whose only parameter is named
  \<^verbatim>\<open>myfilename\<close>, it matches inside the name and \<^verbatim>\<open>x.txt\<close> is returned.
\<close>

theorem filename_inside_other_parameter_counterexample:
  "extractFilenameFromDisposition (js ''attachment; myfilename=x.txt'') = Inr (Some (js ''x.txt''))"
  by (simp add: extract_eval js_def)

text \<open>
  C10, amended. No exception leaves the function, whatever the header. It returns
  \<^verbatim>\<open>null\<close> exactly for the headers in which the expression matches nowhere: at no
  position (in any case of the letters, and also inside a longer name) stands
  \<^verbatim>\<open>filename*=UTF-8''\<close> followed by a code unit other than the semicolon, or
  \<^verbatim>\<open>filename=\<close> followed, directly or after one double quote, by a code unit other
  than the double quote and the semicolon; in particular for every header in which
  the word \<^verbatim>\<open>filename\<close> does not occur. When the encoded form is captured and
  \<^verbatim>\<open>decodeURIComponent\<close> throws on it, the captured text is returned as it stands.
\<close>

theorem extractFilename_never_throws:
  "(\<exists>r. extractFilenameFromDisposition d = Inr r)
   \<and> (extractFilenameFromDisposition d = Inr None) = (\<not> filename_text_occurs d)
   \<and> (\<not> js_includes (map canonicalize d) (js ''FILENAME'')
        \<longrightarrow> extractFilenameFromDisposition d = Inr None)
   \<and> (filenameRegex_exec d = Some (Some encoded, plain) \<and> decodeURIComponent encoded = Inl e
        \<longrightarrow> extractFilenameFromDisposition d = Inr (Some encoded))"
proof (intro conjI impI)
  show "\<exists>r. extractFilenameFromDisposition d = Inr r"
    by (auto simp: extractFilenameFromDisposition_def try_catch_def
        split: option.splits sum.splits)
next
  show "(extractFilenameFromDisposition d = Inr None) = (\<not> filename_text_occurs d)"
  proof (cases "filenameRegex_exec d")
    case None
    then show ?thesis
      using exec_iff[of d] by (simp add: extractFilenameFromDisposition_def)
  next
    case (Some m)
    obtain encoded plain where m: "m = (encoded, plain)" by (cases m)
    from exec_groups[OF Some[unfolded m]] Some m have "extractFilenameFromDisposition d \<noteq> Inr None"
      by (auto simp: extractFilenameFromDisposition_def try_catch_def split: sum.splits)
    then show ?thesis using exec_iff[of d] Some by simp
  qed
next
  assume "\<not> js_includes (map canonicalize d) (js ''FILENAME'')"
  then have "filenameRegex_exec d = None" using exec_needs_filename by blast
  then show "extractFilenameFromDisposition d = Inr None"
    by (simp add: extractFilenameFromDisposition_def)
next
  assume a: "filenameRegex_exec d = Some (Some encoded, plain) \<and> decodeURIComponent encoded = Inl e"
  then have "encoded \<noteq> []" using exec_groups by blast
  with a show "extractFilenameFromDisposition d = Inr (Some encoded)"
    by (simp add: extractFilenameFromDisposition_def try_catch_def)
qed

theorem extractFilename_never_throws_witness:
  "\<not> js_includes (map canonicalize (js ''attachment'')) (js ''FILENAME'')
   \<and> extractFilenameFromDisposition (js ''attachment'') = Inr None
   \<and> \<not> filename_text_occurs (js ''attachment; filename'')
   \<and> extractFilenameFromDisposition (js ''attachment; filename'') = Inr None
   \<and> filenameRegex_exec (js ''filename*=UTF-8'' @ [0x27, 0x27] @ js ''%E5%9C'')
       = Some (Some (js ''%E5%9C''), None)
   \<and> decodeURIComponent (js ''%E5%9C'') = Inl URIError
   \<and> extractFilenameFromDisposition (js ''filename*=UTF-8'' @ [0x27, 0x27] @ js ''%E5%9C'')
       = Inr (Some (js ''%E5%9C''))"
proof -
  have h1: "\<not> js_includes (map canonicalize (js ''attachment'')) (js ''FILENAME'')"
    by (simp add: js_def canonicalize_def)
  have h2: "filenameRegex_exec (js ''filename*=UTF-8'' @ [0x27, 0x27] @ js ''%E5%9C'')
       = Some (Some (js ''%E5%9C''), None)"
    by (simp add: extract_eval js_def)
  have h3: "decodeURIComponent (js ''%E5%9C'') = Inl URIError"
    by (simp add: decode_eval)
  have h4: "extractFilenameFromDisposition (js ''attachment; filename'') = Inr None"
    by (simp add: extract_eval js_def)
  show ?thesis
    using h1 h2 h3 h4
      extractFilename_never_throws[where d = "js ''attachment''"]
      extractFilename_never_throws[where d = "js ''attachment; filename''"]
      extractFilename_never_throws[where d = "js ''filename*=UTF-8'' @ [0x27, 0x27] @ js ''%E5%9C''"
        and encoded = "js ''%E5%9C''" and plain = None and e = URIError]
    by blast
qed

end
